theory Spec2Isabelle
  imports Complex_Main "HOL-Library.Sublist" "HOL-Library.AList"
begin

section \<open>Tiled instance segmentation: the pipeline of \<open>main.py\<close>\<close>

text \<open>
  The development follows \<open>src/main.py\<close>: input normalisation
  (\<open>normalize_8_bit\<close>), the tile scan (\<open>tile_extraction_part\<close>), the per-tile
  detection filter (\<open>filter_tile\<close>), the checkpoint records
  (\<open>save_intermediate_step\<close>, \<open>load_all_steps\<close>), and the deduplication and
  compositing done in \<open>pipeline\<close>.

  Conventions. Python integers are \<^typ>\<open>int\<close>. Floating-point numbers (pixel values,
  scores, box coordinates, thresholds) are read as the \<^typ>\<open>real\<close> numbers they denote:
  rounding is not modelled. An exception is a value of \<open>py_error\<close>, and a function that can
  raise returns a sum with the error on the left.
\<close>

datatype py_error =
    ValueError
  | RuntimeError
  | IndexError
  | AttributeError
  | FileNotFoundError
  | InvalidDtype
  | SystemExit int

subsection \<open>Python's \<open>range\<close> and slices\<close>

text \<open>
  \<open>range(0, stop, step)\<close>: the multiples \<open>0, step, 2 * step, ...\<close> before \<open>stop\<close>; a
  zero step raises \<open>ValueError\<close>.
\<close>

definition py_range :: "int \<Rightarrow> int \<Rightarrow> py_error + int list" where
  "py_range stop step =
     (if step = 0 then Inl ValueError
      else if 0 < step
        then Inr (map (\<lambda>k. int k * step) [0..<nat ((stop + step - 1) div step)])
        else Inr (map (\<lambda>k. int k * step) [0..<nat ((- stop - step - 1) div (- step))]))"

subsection \<open>The tile scan: which tiles are cut\<close>

text \<open>
  \<open>tile_extraction_part\<close> makes four passes over an image of \<open>H\<close> rows and \<open>W\<close> columns
  (\<open>tiff.shape\<close>), with tile side \<open>T\<close> (\<open>args.tile_size\<close>) and stride \<open>S\<close>
  (\<open>args.rolling_window\<close>). A tile is named by its origin \<open>(i, j)\<close>: top row and left
  column, as passed to \<open>crop(tiff, i, j, T, T)\<close>. A \<open>for\<close> over a range with a leading
  \<open>if ...: break\<close> visits the longest prefix of the range on which the test is false.
\<close>

type_synonym origin = "int \<times> int"

text \<open>
  Lines 208-214: both loops of the row-major sweep visit \<open>0, S, 2 * S, ...\<close> and leave at
  the first position \<open>k\<close> with \<open>k + T > N\<close>, for \<open>N\<close> the height or the width.
\<close>

definition sweep_positions :: "int \<Rightarrow> int \<Rightarrow> int \<Rightarrow> py_error + int list" where
  "sweep_positions N T S =
     (case py_range N S of
        Inl e \<Rightarrow> Inl e
      | Inr ks \<Rightarrow> Inr (takeWhile (\<lambda>k. \<not> k + T > N) ks))"

text \<open>Lines 208-228: the row-major sweep.\<close>

definition primary_sweep :: "int \<Rightarrow> int \<Rightarrow> int \<Rightarrow> int \<Rightarrow> py_error + origin list" where
  "primary_sweep H W T S =
     (case sweep_positions H T S of
        Inl e \<Rightarrow> Inl e
      | Inr is \<Rightarrow>
          (case sweep_positions W T S of
             Inl e \<Rightarrow> Inl e
           | Inr js \<Rightarrow> Inr (concat (map (\<lambda>i. map (\<lambda>j. (i, j)) js) is))))"

text \<open>Lines 231-243: the last row, entered when \<open>H % S != 0\<close>, leaving at \<open>j + T >= W\<close>.\<close>

definition last_row :: "int \<Rightarrow> int \<Rightarrow> int \<Rightarrow> int \<Rightarrow> py_error + origin list" where
  "last_row H W T S =
     (if H mod S \<noteq> 0
      then (case py_range W S of
              Inl e \<Rightarrow> Inl e
            | Inr js \<Rightarrow> Inr (map (\<lambda>j. (H - T, j)) (takeWhile (\<lambda>j. \<not> j + T \<ge> W) js)))
      else Inr [])"

text \<open>Lines 245-256: the last columns, entered when \<open>W % S != 0\<close>, leaving at \<open>i + T >= H\<close>.\<close>

definition last_columns :: "int \<Rightarrow> int \<Rightarrow> int \<Rightarrow> int \<Rightarrow> py_error + origin list" where
  "last_columns H W T S =
     (if W mod S \<noteq> 0
      then (case py_range H S of
              Inl e \<Rightarrow> Inl e
            | Inr is \<Rightarrow> Inr (map (\<lambda>i. (i, W - T)) (takeWhile (\<lambda>i. \<not> i + T \<ge> H) is)))
      else Inr [])"

text \<open>Lines 258-267: the bottom right square, cut when both remainders are non-zero.\<close>

definition bottom_right :: "int \<Rightarrow> int \<Rightarrow> int \<Rightarrow> int \<Rightarrow> origin list" where
  "bottom_right H W T S =
     (if H mod S \<noteq> 0 \<and> W mod S \<noteq> 0 then [(H - T, W - T)] else [])"

text \<open>
  All origins in the order the scan visits them. The first \<open>range\<close> call already raises
  for a zero stride, so the remainders \<open>H % S\<close> are only taken with \<open>S \<noteq> 0\<close>.
\<close>

definition tile_origins :: "int \<Rightarrow> int \<Rightarrow> int \<Rightarrow> int \<Rightarrow> py_error + origin list" where
  "tile_origins H W T S =
     (case primary_sweep H W T S of
        Inl e \<Rightarrow> Inl e
      | Inr ps \<Rightarrow>
          (case last_row H W T S of
             Inl e \<Rightarrow> Inl e
           | Inr rs \<Rightarrow>
               (case last_columns H W T S of
                  Inl e \<Rightarrow> Inl e
                | Inr cs \<Rightarrow> Inr (ps @ rs @ cs @ bottom_right H W T S))))"

text \<open>The pixel \<open>(r, c)\<close> lies in the tile of side \<open>T\<close> with origin \<open>(i, j)\<close>.\<close>

fun in_tile :: "int \<Rightarrow> origin \<Rightarrow> int \<times> int \<Rightarrow> bool" where
  "in_tile T (i, j) (r, c) = (i \<le> r \<and> r < i + T \<and> j \<le> c \<and> c < j + T)"

definition covered :: "int \<Rightarrow> int \<Rightarrow> int \<Rightarrow> int \<Rightarrow> int \<times> int \<Rightarrow> bool" where
  "covered H W T S p =
     (case tile_origins H W T S of
        Inl e \<Rightarrow> False
      | Inr ts \<Rightarrow> list_ex (\<lambda>t. in_tile T t p) ts)"

subsection \<open>Arrays and detections\<close>

text \<open>
  A two-dimensional array is its rows together with its number of columns, which numpy
  keeps in \<open>shape[1]\<close> also when there is no row. \<open>a[lo:hi]\<close> on a sequence of length
  \<open>n\<close> counts a negative bound from the end and clips both bounds to \<open>0..n\<close>.
\<close>

datatype 'a array2 = Array2 (ncols: nat) (rows: "'a list list")

definition nrows :: "'a array2 \<Rightarrow> nat" where
  "nrows m = length (rows m)"

definition slice_bound :: "nat \<Rightarrow> int \<Rightarrow> nat" where
  "slice_bound n k = (if k < 0 then nat (max 0 (int n + k)) else min (nat k) n)"

definition py_slice :: "int \<Rightarrow> int \<Rightarrow> 'a list \<Rightarrow> 'a list" where
  "py_slice lo hi xs =
     take (slice_bound (length xs) hi - slice_bound (length xs) lo)
       (drop (slice_bound (length xs) lo) xs)"

text \<open>
  Every numpy array is rectangular: the representation is well formed when each row has
  \<open>ncols\<close> entries. \<open>cell m r c\<close> is the entry \<open>m[r, c]\<close>.
\<close>

definition wf_array :: "'a array2 \<Rightarrow> bool" where
  "wf_array m = list_all (\<lambda>row. length row = ncols m) (rows m)"

definition cell :: "'a array2 \<Rightarrow> nat \<Rightarrow> nat \<Rightarrow> 'a" where
  "cell m r c = rows m ! r ! c"

text \<open>\<open>m[r0:r1, c0:c1]\<close>\<close>

definition slice2 :: "int \<Rightarrow> int \<Rightarrow> int \<Rightarrow> int \<Rightarrow> 'a array2 \<Rightarrow> 'a array2" where
  "slice2 r0 r1 c0 c1 m =
     Array2 (slice_bound (ncols m) c1 - slice_bound (ncols m) c0)
       (map (py_slice c0 c1) (py_slice r0 r1 (rows m)))"

text \<open>\<open>int(x)\<close> of a float: truncation towards zero, into a Python integer.\<close>

definition py_int :: "real \<Rightarrow> int" where
  "py_int x = (if 0 \<le> x then \<lfloor>x\<rfloor> else \<lceil>x\<rceil>)"

text \<open>
  \<open>.type(torch.int)\<close> of a float tensor: truncation towards zero into 32 bits. A value
  outside the range of \<open>int32\<close> comes out as \<open>-2^31\<close>, which is what the conversion gives
  on x86; the language behind it leaves that case open.
\<close>

definition torch_int :: "real \<Rightarrow> int" where
  "torch_int x =
     (if - (2 ^ 31) \<le> py_int x \<and> py_int x < 2 ^ 31 then py_int x else - (2 ^ 31))"

text \<open>
  A box is \<open>[x0, y0, x1, y1]\<close>. The detector returns, and \<open>filter_tile\<close> keeps, a
  dictionary of three arrays \<open>scores\<close>, \<open>masks\<close>, \<open>boxes\<close> with one entry per detection,
  and every selection indexes all three with the same Boolean index: the dictionary is
  modelled as the list of its detections. A detector mask has shape \<open>[1, T, T]\<close>; its one
  channel is kept. Thresholded masks hold \<open>0.0\<close> and \<open>1.0\<close> only and are given as
  integers.
\<close>

type_synonym box = "real \<times> real \<times> real \<times> real"

record 'm detection =
  det_score :: real
  det_mask :: 'm
  det_box :: box

type_synonym raw_detection = "real array2 detection"
type_synonym anchored_mask = "(int \<times> int) \<times> int array2"
type_synonym filtered_detection = "anchored_mask detection"

record args =
  device :: string
  thres_nms :: real
  thres_prediction :: real
  thres_mask :: real
  thres_size :: real
  tile_size :: int
  rolling_window :: int

subsection \<open>The detection filter\<close>

fun box_area :: "box \<Rightarrow> real" where
  "box_area (x0, y0, x1, y1) = (x1 - x0) * (y1 - y0)"

text \<open>
  \<open>area / tile_area <= thres_size\<close> on numpy floats: a zero divisor does not raise, the
  quotient is \<open>inf\<close>, \<open>-inf\<close> or \<open>nan\<close>, and only \<open>-inf\<close> passes the comparison.
\<close>

definition relative_size_ok :: "args \<Rightarrow> int \<Rightarrow> box \<Rightarrow> bool" where
  "relative_size_ok a tile_area b =
     (if tile_area = 0 then box_area b < 0
      else box_area b / real_of_int tile_area \<le> thres_size a)"

definition mask_sum :: "real array2 \<Rightarrow> real" where
  "mask_sum m = sum_list (map sum_list (rows m))"

text \<open>Lines 58-62, 74-78, 84-87 and 93-96: the four selections.\<close>

definition keep_scores :: "args \<Rightarrow> raw_detection list \<Rightarrow> raw_detection list" where
  "keep_scores a res = filter (\<lambda>d. det_score d \<ge> thres_prediction a) res"

definition keep_relative_size :: "args \<Rightarrow> int \<Rightarrow> raw_detection list \<Rightarrow> raw_detection list" where
  "keep_relative_size a tile_area res = filter (\<lambda>d. relative_size_ok a tile_area (det_box d)) res"

definition keep_absolute_size :: "raw_detection list \<Rightarrow> raw_detection list" where
  "keep_absolute_size res = filter (\<lambda>d. box_area (det_box d) > 30) res"

definition keep_mask_mass :: "raw_detection list \<Rightarrow> raw_detection list" where
  "keep_mask_mass res = filter (\<lambda>d. mask_sum (det_mask d) > 30) res"

text \<open>Line 104: \<open>(mask >= args.thres_mask).astype(int)\<close>.\<close>

definition binarize :: "args \<Rightarrow> real array2 \<Rightarrow> int array2" where
  "binarize a m =
     Array2 (ncols m) (map (map (\<lambda>p. if p \<ge> thres_mask a then 1 else 0)) (rows m))"

text \<open>Lines 107-112: the mask cut to \<open>[int(y0):int(y1), int(x0):int(x1)]\<close>.\<close>

fun trim_mask :: "box \<Rightarrow> 'a array2 \<Rightarrow> 'a array2" where
  "trim_mask (x0, y0, x1, y1) m = slice2 (py_int y0) (py_int y1) (py_int x0) (py_int x1) m"

text \<open>Lines 115-118: \<open>j\<close> is added to both \<open>x\<close> and \<open>i\<close> to both \<open>y\<close>.\<close>

fun translate_box :: "int \<Rightarrow> int \<Rightarrow> box \<Rightarrow> box" where
  "translate_box i j (x0, y0, x1, y1) =
     (x0 + real_of_int j, y0 + real_of_int i, x1 + real_of_int j, y1 + real_of_int i)"

text \<open>
  Lines 101-121: the loop over the surviving detections. Each turn thresholds the mask,
  appends the anchor \<open>(j, i)\<close> with the trimmed mask to \<open>n_masks\<close>, and only then moves
  the box.
\<close>

fun trim_and_translate ::
  "args \<Rightarrow> int \<Rightarrow> int \<Rightarrow> raw_detection list \<Rightarrow> filtered_detection list" where
  "trim_and_translate a i j [] = []"
| "trim_and_translate a i j (d # ds) =
     \<lparr>det_score = det_score d,
      det_mask = ((j, i), trim_mask (det_box d) (binarize a (det_mask d))),
      det_box = translate_box i j (det_box d)\<rparr>
     # trim_and_translate a i j ds"

text \<open>
  \<open>filter_tile(res, tile_area, i, j)\<close>. Each early \<open>return res\<close> hands back the
  dictionary with no detection left.
\<close>

definition filter_tile ::
  "args \<Rightarrow> raw_detection list \<Rightarrow> int \<Rightarrow> int \<Rightarrow> int \<Rightarrow> filtered_detection list" where
  "filter_tile a res tile_area i j =
     (let res1 = keep_scores a res in
      if length res1 = 0 then []
      else let res2 = keep_relative_size a tile_area res1 in
      if length res2 = 0 then []
      else let res3 = keep_absolute_size res2 in
      if length res3 = 0 then []
      else let res4 = keep_mask_mass res3 in
      if length res4 = 0 then []
      else trim_and_translate a i j res4)"

text \<open>
  Lines 52-53 open \<open>filter_tile\<close> with \<open>.detach().cpu()\<close> on every value of the
  dictionary, so every value has to be a torch tensor. The detector returns such a
  dictionary. What \<open>filter_tile\<close> returns is not one: \<open>boxes\<close> is a numpy array
  (line 56) and \<open>masks\<close> a numpy array or the Python list \<open>n_masks\<close>, and neither has
  \<open>detach\<close>. A call on such a dictionary raises \<open>AttributeError\<close> at line 53.
\<close>

datatype result_dict = Tensors "raw_detection list" | Arrays "filtered_detection list"

definition filter_tile_call ::
  "args \<Rightarrow> result_dict \<Rightarrow> int \<Rightarrow> int \<Rightarrow> int \<Rightarrow> py_error + result_dict" where
  "filter_tile_call a res tile_area i j =
     (case res of
        Tensors ds \<Rightarrow> Inr (Arrays (filter_tile a ds tile_area i j))
      | Arrays fs \<Rightarrow> Inl AttributeError)"

text \<open>
  The filter as section 4.3 of the specification words it, written without the helpers
  of the code above: seven steps, each over the whole set, the set given up as soon as a
  step leaves it empty. A detection here is a score, a mask and a box; the area of a box
  is its width times its height; the mass of a mask is the sum of its entries;
  \<open>a[lo:hi]\<close> selects the indices between the bounds, a negative bound counted from the
  end; the pixel extent of a box is \<open>int\<close> of its corners.
\<close>

definition slice_indices :: "nat \<Rightarrow> int \<Rightarrow> int \<Rightarrow> nat list" where
  "slice_indices n lo hi =
     filter (\<lambda>r. (if lo < 0 then lo + int n else lo) \<le> int r
                \<and> int r < (if hi < 0 then hi + int n else hi)) [0..<n]"

definition step1_score :: "real \<Rightarrow> raw_detection list \<Rightarrow> raw_detection list" where
  "step1_score thresPrediction ds = filter (\<lambda>d. det_score d \<ge> thresPrediction) ds"

definition step2_relative_size :: "real \<Rightarrow> int \<Rightarrow> raw_detection list \<Rightarrow> raw_detection list" where
  "step2_relative_size thresSize tileArea ds =
     filter (\<lambda>d. case det_box d of (x0, y0, x1, y1) \<Rightarrow>
                 (x1 - x0) * (y1 - y0) / real_of_int tileArea \<le> thresSize) ds"

definition step3_absolute_size :: "raw_detection list \<Rightarrow> raw_detection list" where
  "step3_absolute_size ds =
     filter (\<lambda>d. case det_box d of (x0, y0, x1, y1) \<Rightarrow> (x1 - x0) * (y1 - y0) > 30) ds"

definition step4_mask_mass :: "raw_detection list \<Rightarrow> raw_detection list" where
  "step4_mask_mass ds =
     filter (\<lambda>d. (\<Sum>r = 0..<nrows (det_mask d). \<Sum>c = 0..<ncols (det_mask d).
                    cell (det_mask d) r c) > 30) ds"

definition step5_binarize :: "real \<Rightarrow> raw_detection list \<Rightarrow> int array2 detection list" where
  "step5_binarize thresMask ds =
     map (\<lambda>d. \<lparr>det_score = det_score d,
                det_mask = Array2 (ncols (det_mask d))
                  (map (\<lambda>r. map (\<lambda>c. if cell (det_mask d) r c \<ge> thresMask then 1 else 0)
                              [0..<ncols (det_mask d)])
                     [0..<nrows (det_mask d)]),
                det_box = det_box d\<rparr>) ds"

definition step6_crop :: "int array2 detection list \<Rightarrow> int array2 detection list" where
  "step6_crop ds =
     map (\<lambda>d. case det_box d of (x0, y0, x1, y1) \<Rightarrow>
            \<lparr>det_score = det_score d,
             det_mask = Array2 (length (slice_indices (ncols (det_mask d)) (py_int x0) (py_int x1)))
               (map (\<lambda>r. map (\<lambda>c. cell (det_mask d) r c)
                           (slice_indices (ncols (det_mask d)) (py_int x0) (py_int x1)))
                  (slice_indices (nrows (det_mask d)) (py_int y0) (py_int y1))),
             det_box = det_box d\<rparr>) ds"

definition step7_translate ::
  "int \<Rightarrow> int \<Rightarrow> int array2 detection list \<Rightarrow> int array2 detection list" where
  "step7_translate originRow originCol ds =
     map (\<lambda>d. case det_box d of (x0, y0, x1, y1) \<Rightarrow>
            \<lparr>det_score = det_score d, det_mask = det_mask d,
             det_box = (x0 + real_of_int originCol, y0 + real_of_int originRow,
                        x1 + real_of_int originCol, y1 + real_of_int originRow)\<rparr>) ds"

definition detection_filter_spec ::
  "args \<Rightarrow> raw_detection list \<Rightarrow> int \<Rightarrow> int \<Rightarrow> int \<Rightarrow> int array2 detection list" where
  "detection_filter_spec a ds tileArea originRow originCol =
     (let s1 = step1_score (thres_prediction a) ds in
      if s1 = [] then []
      else let s2 = step2_relative_size (thres_size a) tileArea s1 in
      if s2 = [] then []
      else let s3 = step3_absolute_size s2 in
      if s3 = [] then []
      else let s4 = step4_mask_mass s3 in
      if s4 = [] then []
      else step7_translate originRow originCol (step6_crop (step5_binarize (thres_mask a) s4)))"

text \<open>
  What \<open>filter_tile\<close> returns carries, with each mask, the anchor \<open>(j, i)\<close>;
  \<open>unanchored\<close> leaves the anchor out.
\<close>

definition unanchored :: "filtered_detection \<Rightarrow> int array2 detection" where
  "unanchored d = \<lparr>det_score = det_score d, det_mask = snd (det_mask d), det_box = det_box d\<rparr>"

subsection \<open>Checkpoint records\<close>

text \<open>
  A pickled record holds \<open>scores\<close>, \<open>masks\<close> and \<open>boxes\<close>. \<open>load_all_steps\<close>
  iterates each and looks at \<open>ndim\<close>: an element of \<open>boxes\<close> is one box (\<open>ndim = 1\<close>)
  or an array of boxes; an element of \<open>scores\<close> is a scalar (\<open>ndim = 0\<close>) or a tensor
  of scores.
\<close>

datatype box_item = Box1 box | BoxN "box list"

datatype score_item = Score0 real | ScoreN "real list"

record 'm checkpoint =
  c_scores :: "score_item list"
  c_masks :: "'m list"
  c_boxes :: "box_item list"

text \<open>
  Lines 126-129. \<open>filter_tile\<close> leaves \<open>scores\<close> a one-dimensional tensor, whose elements
  are scalars, and \<open>boxes\<close> an array of shape \<open>[n, 4]\<close>, whose elements are single boxes.
\<close>

definition save_intermediate_step :: "'m detection list \<Rightarrow> 'm checkpoint" where
  "save_intermediate_step res =
     \<lparr>c_scores = map (\<lambda>d. Score0 (det_score d)) res,
      c_masks = map det_mask res,
      c_boxes = map (\<lambda>d. Box1 (det_box d)) res\<rparr>"

text \<open>
  The files written by one scan, in order: \<open>(k, c)\<close> is the record \<open>c\<close> written to
  \<open>step1/k.pkl\<close>.
\<close>

type_synonym 'm writes = "(nat \<times> 'm checkpoint) list"

text \<open>
  The detector is a collaborator: \<open>run i j\<close> stands for
  \<open>model([crop(tiff, i, j, T, T)])[0]\<close>, its answer on the tile with origin \<open>(i, j)\<close>.
  It is taken to answer on every tile; an exception inside the model ends the run and is
  not part of the claims below.
\<close>

type_synonym detector = "int \<Rightarrow> int \<Rightarrow> raw_detection list"

text \<open>Lines 179-189: the record is written only when a detection is left.\<close>

definition extract_tile_run_model_save ::
  "args \<Rightarrow> detector \<Rightarrow> int \<Rightarrow> int \<Rightarrow> nat \<Rightarrow> anchored_mask writes \<Rightarrow> anchored_mask writes" where
  "extract_tile_run_model_save a run coordX coordY counter store =
     (let res = filter_tile a (run coordX coordY) ((tile_size a)\<^sup>2) coordX coordY in
      if length res \<noteq> 0 then store @ [(counter, save_intermediate_step res)] else store)"

text \<open>Lines 208-228: the body of the sweep, with the counter and the files written so far.\<close>

fun sweep_loop ::
  "args \<Rightarrow> detector \<Rightarrow> origin list \<Rightarrow> nat \<times> anchored_mask writes \<Rightarrow> nat \<times> anchored_mask writes" where
  "sweep_loop a run [] st = st"
| "sweep_loop a run ((i, j) # ts) (counter, store) =
     sweep_loop a run ts (counter + 1, extract_tile_run_model_save a run i j counter store)"

text \<open>
  Lines 237-243, 250-256 and 260-267: the body of the three edge passes, which calls
  \<open>save_intermediate_step\<close> on whatever \<open>filter_tile\<close> returned.
\<close>

fun edge_loop ::
  "args \<Rightarrow> detector \<Rightarrow> origin list \<Rightarrow> nat \<times> anchored_mask writes \<Rightarrow> nat \<times> anchored_mask writes" where
  "edge_loop a run [] st = st"
| "edge_loop a run ((i, j) # ts) (counter, store) =
     edge_loop a run ts
       (counter + 1,
        store @ [(counter, save_intermediate_step
                             (filter_tile a (run i j) ((tile_size a)\<^sup>2) i j))])"

text \<open>Lines 203-267, for an image of \<open>H\<close> rows and \<open>W\<close> columns: the files written.\<close>

definition tile_extraction_part ::
  "args \<Rightarrow> detector \<Rightarrow> int \<Rightarrow> int \<Rightarrow> py_error + anchored_mask writes" where
  "tile_extraction_part a run H W =
     (case primary_sweep H W (tile_size a) (rolling_window a) of
        Inl e \<Rightarrow> Inl e
      | Inr ps \<Rightarrow>
          (case last_row H W (tile_size a) (rolling_window a) of
             Inl e \<Rightarrow> Inl e
           | Inr rs \<Rightarrow>
               (case last_columns H W (tile_size a) (rolling_window a) of
                  Inl e \<Rightarrow> Inl e
                | Inr cs \<Rightarrow>
                    Inr (snd (edge_loop a run (bottom_right H W (tile_size a) (rolling_window a))
                               (edge_loop a run cs
                                 (edge_loop a run rs
                                   (sweep_loop a run ps (0, [])))))))))"

subsection \<open>Reading the records back\<close>

text \<open>
  An entry of the directory is a file holding a record, or something \<open>os.path.isfile\<close>
  rejects. Lines 140-154 append to three lists; \<open>torch.tensor(b)\<close> of a box is one row and
  \<open>score.view(1)\<close> a tensor of one score.
\<close>

datatype 'm dir_entry = File "'m checkpoint" | NotFile

primrec box_rows :: "box_item \<Rightarrow> box list" where
  "box_rows (Box1 b) = [b]"
| "box_rows (BoxN bs) = bs"

primrec score_tensor :: "score_item \<Rightarrow> real list" where
  "score_tensor (Score0 x) = [x]"
| "score_tensor (ScoreN xs) = xs"

fun load_loop ::
  "'m dir_entry list \<Rightarrow> box list \<times> real list list \<times> 'm list \<Rightarrow>
   box list \<times> real list list \<times> 'm list" where
  "load_loop [] acc = acc"
| "load_loop (NotFile # es) acc = load_loop es acc"
| "load_loop (File c # es) (bs, ss, ms) =
     load_loop es
       (bs @ concat (map box_rows (c_boxes c)),
        ss @ map score_tensor (c_scores c),
        ms @ c_masks c)"

record 'm aggregated =
  boxes :: "box list"
  scores :: "real list"
  masks :: "'m list"

text \<open>
  Lines 165-166: \<open>torch.vstack\<close> and \<open>torch.cat\<close> both raise \<open>RuntimeError\<close> on an empty
  list of tensors; \<open>torch.cat\<close> joins the score tensors end to end.
\<close>

definition load_all_steps :: "'m dir_entry list \<Rightarrow> py_error + 'm aggregated" where
  "load_all_steps entries =
     (case load_loop entries ([], [], []) of
        (bs, ss, ms) \<Rightarrow>
          if bs = [] then Inl RuntimeError
          else if ss = [] then Inl RuntimeError
          else Inr \<lparr>boxes = bs, scores = concat ss, masks = ms\<rparr>)"

text \<open>
  A directory entry as the scan leaves it: a record written by \<open>save_intermediate_step\<close>
  for a list of detections, or something that is not a file.
\<close>

fun written :: "'m detection list option \<Rightarrow> 'm dir_entry" where
  "written None = NotFile"
| "written (Some res) = File (save_intermediate_step res)"

subsection \<open>Input normalisation\<close>

datatype dtype =
    Bool | Int8 | UInt8 | Int16 | UInt16 | Int32 | UInt32 | Int64 | UInt64
  | Float16 | Float32 | Float64 | Complex64 | Complex128


definition scale_array :: "real \<Rightarrow> real array2 \<Rightarrow> real array2" where
  "scale_array k m = Array2 (ncols m) (map (map (\<lambda>x. x * k)) (rows m))"

definition divide_array :: "real array2 \<Rightarrow> real \<Rightarrow> real array2" where
  "divide_array m k = Array2 (ncols m) (map (map (\<lambda>x. x / k)) (rows m))"

text \<open>
  \<open>image / k\<close>, numpy's division of an array of a given \<open>dtype\<close> by a Python integer, is
  library code. What it yields depends on the \<open>dtype\<close> and on the promotion rules of the
  NumPy at hand: the integer is brought to the array's type first where the rules say so,
  and one that does not fit there overflows (\<open>2**16\<close> is \<open>inf\<close> in \<open>float16\<close>) or raises.
  The division is therefore a parameter; \<open>exact_divide\<close> is the division of the real
  numbers, every pixel by \<open>k\<close>.
\<close>

type_synonym np_divide = "dtype \<Rightarrow> real array2 \<Rightarrow> int \<Rightarrow> py_error + real array2"

definition exact_divide :: np_divide where
  "exact_divide dt m k = Inr (divide_array m (real_of_int k))"

text \<open>
  Lines 38-48. The image is its \<open>dtype\<close> and its pixel values; the chain of tests reads
  the \<open>dtype\<close> only and picks the divisor, or raises before any pixel is touched.
\<close>

definition normalize_8_bit :: "np_divide \<Rightarrow> dtype \<Rightarrow> real array2 \<Rightarrow> py_error + real array2" where
  "normalize_8_bit dv dt img =
     (if dt = Int8 then dv dt img (2 ^ 8)
      else if dt = Float16 \<or> dt = UInt16 then dv dt img (2 ^ 16)
      else if dt = Float32 \<or> dt = UInt32 then dv dt img (2 ^ 32)
      else if dt = Float64 \<or> dt = UInt64 then dv dt img (2 ^ 64)
      else Inl InvalidDtype)"

subsection \<open>Deduplication across tiles\<close>

text \<open>
  Modelled from the spec: \<open>torchvision.ops.nms\<close> is called by \<open>pipeline\<close> but is library
  code, absent from the sources. It is modelled as section 4.5 of the specification
  words it: the indices sorted by descending score (ties in original order), the first
  one accepted, every later box whose intersection over union with it exceeds the
  threshold dropped, and so on with what remains.
\<close>

fun iou :: "box \<Rightarrow> box \<Rightarrow> real" where
  "iou (ax0, ay0, ax1, ay1) (bx0, by0, bx1, by1) =
     (let inter = max 0 (min ax1 bx1 - max ax0 bx0) * max 0 (min ay1 by1 - max ay0 by0)
      in inter / ((ax1 - ax0) * (ay1 - ay0) + (bx1 - bx0) * (by1 - by0) - inter))"

fun greedy_nms :: "real \<Rightarrow> box list \<Rightarrow> nat list \<Rightarrow> nat list" where
  "greedy_nms thr bs [] = []"
| "greedy_nms thr bs (k # rest) =
     k # greedy_nms thr bs (filter (\<lambda>m. \<not> iou (bs ! k) (bs ! m) > thr) rest)"

definition nms :: "box list \<Rightarrow> real list \<Rightarrow> real \<Rightarrow> nat list" where
  "nms bs ss thr = greedy_nms thr bs (sort_key (\<lambda>k. - (ss ! k)) [0..<length bs])"

text \<open>
  Lines 328-335: the indices are applied to the boxes, to the scores and, one by one,
  to the list of masks. \<open>nms\<close> refuses boxes and scores of different lengths, and a list
  index past the end raises \<open>IndexError\<close>.
\<close>

definition deduplicate :: "real \<Rightarrow> 'm aggregated \<Rightarrow> py_error + 'm aggregated" where
  "deduplicate thr out =
     (if length (scores out) \<noteq> length (boxes out) then Inl RuntimeError
      else let indexes = nms (boxes out) (scores out) thr in
        if list_ex (\<lambda>k. k \<ge> length (masks out)) indexes then Inl IndexError
        else Inr \<lparr>boxes = map (\<lambda>k. boxes out ! k) indexes,
                  scores = map (\<lambda>k. scores out ! k) indexes,
                  masks = map (\<lambda>k. masks out ! k) indexes\<rparr>)"

subsection \<open>Compositing\<close>

definition zeros :: "nat \<Rightarrow> nat \<Rightarrow> int array2" where
  "zeros H W = Array2 W (replicate H (replicate W 0))"

definition times_array :: "int array2 \<Rightarrow> int \<Rightarrow> int array2" where
  "times_array m k = Array2 (ncols m) (map (map (\<lambda>x. x * k)) (rows m))"

text \<open>
  \<open>final[r0:r1, c0:c1] += m\<close>. The slice is clipped to the canvas; \<open>m\<close> must have the
  shape of the slice, up to numpy's broadcasting of an axis of length one, or numpy
  raises \<open>ValueError\<close>.
\<close>

definition add_into ::
  "int array2 \<Rightarrow> int \<Rightarrow> int \<Rightarrow> int \<Rightarrow> int \<Rightarrow> int array2 \<Rightarrow> py_error + int array2" where
  "add_into final r0 r1 c0 c1 m =
     (let rlo = slice_bound (nrows final) r0;
          rh = slice_bound (nrows final) r1 - rlo;
          clo = slice_bound (ncols final) c0;
          cw = slice_bound (ncols final) c1 - clo
      in if (nrows m = rh \<or> nrows m = 1) \<and> (ncols m = cw \<or> ncols m = 1)
         then Inr (Array2 (ncols final)
                (map (\<lambda>(r, row).
                   map (\<lambda>(c, v).
                     if rlo \<le> r \<and> r < rlo + rh \<and> clo \<le> c \<and> c < clo + cw
                     then v + rows m ! (if nrows m = 1 then 0 else r - rlo)
                                     ! (if ncols m = 1 then 0 else c - clo)
                     else v) (enumerate 0 row))
                   (enumerate 0 (rows final))))
         else Inl ValueError)"

text \<open>Lines 343-353: one turn of the loop, for the detection at index \<open>i\<close>.\<close>

fun paint_one :: "nat \<Rightarrow> box \<Rightarrow> anchored_mask \<Rightarrow> int array2 \<Rightarrow> py_error + int array2" where
  "paint_one i (x0, y0, x1, y1) (anchor, m) final =
     (let bx0 = torch_int x0; by0 = torch_int y0; bx1 = torch_int x1; by1 = torch_int y1;
          mask = times_array m (int i + 1)
      in if by1 - by0 \<noteq> int (nrows mask) \<or> bx1 - bx0 \<noteq> int (ncols mask)
         then let mask' = slice2 0 (min (int (nrows mask)) (by1 - by0))
                                 0 (min (int (ncols mask)) (bx1 - bx0)) mask
              in add_into final by0 (by0 + int (nrows mask')) bx0 (bx0 + int (ncols mask')) mask'
         else add_into final by0 by1 bx0 bx1 mask)"

text \<open>Lines 342-353: the loop over \<open>range(len(output["boxes"]))\<close>.\<close>

fun paint_loop ::
  "nat \<Rightarrow> box list \<Rightarrow> anchored_mask list \<Rightarrow> int array2 \<Rightarrow> py_error + int array2" where
  "paint_loop i [] ms final = Inr final"
| "paint_loop i (b # bs) [] final = Inl IndexError"
| "paint_loop i (b # bs) (m # ms) final =
     (case paint_one i b m final of
        Inl e \<Rightarrow> Inl e
      | Inr final' \<Rightarrow> paint_loop (i + 1) bs ms final')"

text \<open>Lines 339-353, for \<open>original_shape = (H, W)\<close>.\<close>

definition composite :: "nat \<Rightarrow> nat \<Rightarrow> anchored_mask aggregated \<Rightarrow> py_error + int array2" where
  "composite H W out = paint_loop 0 (boxes out) (masks out) (zeros H W)"

text \<open>
  Notions used to state what \<open>composite\<close> computes. An array is binary when every
  entry is 0 or 1. A box lies in the
  canvas when its corners, brought to 32-bit integers, are ordered and inside \<open>0..W\<close> and \<open>0..H\<close>.
  \<open>stamp b m r c\<close> is what the mask \<open>m\<close> of a detection with box \<open>b\<close> contributes at
  canvas cell \<open>(r, c)\<close>: the mask entry at the offset from the box corner, inside the
  smaller of the mask's and the box's extents, and 0 elsewhere.
\<close>

definition binary :: "int array2 \<Rightarrow> bool" where
  "binary m = list_all (list_all (\<lambda>v. v = 0 \<or> v = 1)) (rows m)"

fun box_in_canvas :: "nat \<Rightarrow> nat \<Rightarrow> box \<Rightarrow> bool" where
  "box_in_canvas H W (x0, y0, x1, y1) =
     (0 \<le> torch_int x0 \<and> torch_int x0 \<le> torch_int x1 \<and> torch_int x1 \<le> int W
      \<and> 0 \<le> torch_int y0 \<and> torch_int y0 \<le> torch_int y1 \<and> torch_int y1 \<le> int H)"

text \<open>A tile-local box inside a tile of side \<open>T\<close>, as a detector returns it.\<close>

fun box_in_tile :: "int \<Rightarrow> box \<Rightarrow> bool" where
  "box_in_tile T (x0, y0, x1, y1) =
     (0 \<le> x0 \<and> x0 \<le> x1 \<and> x1 \<le> real_of_int T \<and> 0 \<le> y0 \<and> y0 \<le> y1 \<and> y1 \<le> real_of_int T)"

fun stamp :: "box \<Rightarrow> int array2 \<Rightarrow> nat \<Rightarrow> nat \<Rightarrow> int" where
  "stamp (x0, y0, x1, y1) m r c =
     (if nat (torch_int y0) \<le> r \<and> r < nat (torch_int y0) + min (nrows m) (nat (torch_int y1 - torch_int y0))
         \<and> nat (torch_int x0) \<le> c \<and> c < nat (torch_int x0) + min (ncols m) (nat (torch_int x1 - torch_int x0))
      then cell m (r - nat (torch_int y0)) (c - nat (torch_int x0))
      else 0)"

subsection \<open>The whole run\<close>

text \<open>
  \<open>pipeline\<close> reads its surroundings through library calls, which are the fields of
  \<open>world\<close>: Python's \<open>int\<close> on a string (\<open>None\<close> for \<open>ValueError\<close>),
  \<open>torch.cuda.device_count()\<close>, \<open>tifffile.imread(args.input)\<close>, numpy's division of
  an array by a Python integer, the listing of
  \<open><output>/step1\<close> (\<open>None\<close> when the directory does not exist; a file \<open>k.pkl\<close> is
  named by \<open>k\<close>) and \<open>torch.load(args.model_path)\<close>. The loaded model is given by its
  answers: for the normalised image, a detector on tile origins.

  An image is two-dimensional, or a stack of at least two channels, of which line 295
  keeps the first. \<open>args.parallel\<close> is off: the script exits before \<open>pipeline\<close> otherwise.
\<close>

datatype image =
    Gray dtype "real array2"
  | Stack dtype "real array2" "real array2" "real array2 list"

fun first_channel :: "image \<Rightarrow> dtype \<times> real array2" where
  "first_channel (Gray dt m) = (dt, m)"
| "first_channel (Stack dt c0 c1 cs) = (dt, c0)"

record world =
  parse_int :: "string \<Rightarrow> int option"
  cuda_device_count :: int
  imread :: "py_error + image"
  true_divide :: np_divide
  step1 :: "(nat \<times> anchored_mask dir_entry) list option"
  torch_load :: "py_error + (real array2 \<Rightarrow> detector)"

text \<open>\<open>sub in s\<close> and \<open>s.split(":")[-1]\<close> on strings.\<close>

fun contains :: "string \<Rightarrow> string \<Rightarrow> bool" where
  "contains sub [] = (sub = [])"
| "contains sub (c # cs) = (prefix sub (c # cs) \<or> contains sub cs)"

definition last_field :: "string \<Rightarrow> string" where
  "last_field s = rev (takeWhile (\<lambda>c. c \<noteq> CHR '':'') (rev s))"

text \<open>Lines 285-290: an unknown GPU id prints a message and calls \<open>sys.exit(1)\<close>.\<close>

definition select_device :: "args \<Rightarrow> world \<Rightarrow> py_error + string" where
  "select_device a w =
     (if contains ''cuda'' (device a)
      then (case parse_int w (last_field (device a)) of
              None \<Rightarrow> Inl ValueError
            | Some n \<Rightarrow> if n < cuda_device_count w then Inr (device a) else Inl (SystemExit 1))
      else Inr ''cpu'')"

text \<open>What a run does besides computing: the model is loaded, the model is run on a tile,
  the output image is written.\<close>

datatype event = Load_model | Run_model int int | Write_output

definition scan_events :: "int \<Rightarrow> int \<Rightarrow> int \<Rightarrow> int \<Rightarrow> event list" where
  "scan_events H W T S =
     (case tile_origins H W T S of
        Inl e \<Rightarrow> []
      | Inr ts \<Rightarrow> map (\<lambda>(i, j). Run_model i j) ts)"

text \<open>
  Lines 281-381 without the viewer. Line 298 evaluates \<open>os.listdir\<close> on \<open>step1\<close> before
  the \<open>or True\<close> and before line 300 creates the directory; with the directory there,
  the test is true whatever it holds, and the scan writes into it next to what it held.
  \<open>os.listdir\<close> promises no order; the listing read back is taken to be the old
  entries in their old order, overwritten in place, followed by the new files. The cast
  of the normalised image to \<open>float16\<close> (line 314) is a rounding and is left out.
\<close>

definition pipeline :: "args \<Rightarrow> world \<Rightarrow> event list \<times> (py_error + int array2)" where
  "pipeline a w =
     (case select_device a w of
        Inl e \<Rightarrow> ([], Inl e)
      | Inr dev \<Rightarrow>
     (case imread w of
        Inl e \<Rightarrow> ([], Inl e)
      | Inr im \<Rightarrow>
     (case first_channel im of (dt, tiff) \<Rightarrow>
     (case step1 w of
        None \<Rightarrow> ([], Inl FileNotFoundError)
      | Some old \<Rightarrow>
     (case torch_load w of
        Inl e \<Rightarrow> ([], Inl e)
      | Inr model \<Rightarrow>
     (case normalize_8_bit (true_divide w) dt tiff of
        Inl e \<Rightarrow> ([Load_model], Inl e)
      | Inr n \<Rightarrow>
     (case tile_extraction_part a (model (scale_array 255 n))
             (int (nrows tiff)) (int (ncols tiff)) of
        Inl e \<Rightarrow> ([Load_model], Inl e)
      | Inr ws \<Rightarrow>
     (let evs = Load_model #
                scan_events (int (nrows tiff)) (int (ncols tiff)) (tile_size a) (rolling_window a);
          dir = fold (\<lambda>(k, c). AList.update k (File c)) ws old
      in case load_all_steps (map snd dir) of
           Inl e \<Rightarrow> (evs, Inl e)
         | Inr out \<Rightarrow>
        (case deduplicate (thres_nms a) out of
           Inl e \<Rightarrow> (evs, Inl e)
         | Inr kept \<Rightarrow>
        (case composite (nrows tiff) (ncols tiff) kept of
           Inl e \<Rightarrow> (evs, Inl e)
         | Inr final \<Rightarrow> (evs @ [Write_output], Inr final)))))))))))"

section \<open>The tile scan\<close>

lemma py_range_20_10: "py_range 20 10 = Inr [0, 10]"
  by (simp add: py_range_def upt_conv_Cons)

lemma py_range_25_10: "py_range 25 10 = Inr [0, 10, 20]"
  by (simp add: py_range_def upt_conv_Cons)

lemma origins_20_20_15_10: "tile_origins 20 20 15 10 = Inr [(0, 0)]"
  by (simp add: tile_origins_def primary_sweep_def sweep_positions_def last_row_def
      last_columns_def bottom_right_def py_range_20_10)

lemma origins_25_20_10_10:
  "tile_origins 25 20 10 10 = Inr [(0, 0), (0, 10), (10, 0), (10, 10), (15, 0)]"
  by (simp add: tile_origins_def primary_sweep_def sweep_positions_def last_row_def
      last_columns_def bottom_right_def py_range_20_10 py_range_25_10)

text \<open>
  C1 (coverage). The scan does not cover every image with \<open>T \<le> H\<close> and \<open>T \<le> W\<close>. For a
  20 by 20 image with tiles of side 15 and stride 10 both remainders \<open>H % S\<close> and
  \<open>W % S\<close> are zero, so no edge pass runs and the one tile at \<open>(0, 0)\<close> leaves pixel
  \<open>(19, 19)\<close> out. For a 25 by 20 image with side 10 and stride 10 the last row stops
  before the tile at column 10, and pixel \<open>(24, 15)\<close> lies in no tile.
\<close>

theorem tiles_leave_pixels_uncovered:
  "tile_origins 20 20 15 10 = Inr [(0, 0)]
   \<and> \<not> covered 20 20 15 10 (19, 19)
   \<and> tile_origins 25 20 10 10 = Inr [(0, 0), (0, 10), (10, 0), (10, 10), (15, 0)]
   \<and> \<not> covered 25 20 10 10 (24, 15)"
  by (simp add: covered_def origins_20_20_15_10 origins_25_20_10_10)

text \<open>
  For a positive stride, the last row visits the columns of the sweep except the one
  whose tile ends exactly at the right edge, and the last column the rows of the sweep
  except the one whose tile ends exactly at the bottom edge.
\<close>

lemma takeWhile_strict:
  fixes xs :: "int list"
  assumes "sorted xs"
  shows "takeWhile (\<lambda>k. \<not> k + T \<ge> N) xs
         = filter (\<lambda>k. k + T \<noteq> N) (takeWhile (\<lambda>k. \<not> k + T > N) xs)"
  using assms
proof (induction xs)
  case Nil
  then show ?case by simp
next
  case (Cons x xs)
  from Cons.prems have s: "sorted xs" and ge: "\<forall>y \<in> set xs. x \<le> y" by simp_all
  consider "x + T < N" | "x + T = N" | "x + T > N" by linarith
  then show ?case
  proof cases
    case 1
    then show ?thesis using Cons.IH [OF s] by simp
  next
    case 2
    have "filter (\<lambda>k. k + T \<noteq> N) (takeWhile (\<lambda>k. \<not> k + T > N) xs) = []"
    proof -
      have "k + T = N" if "k \<in> set (takeWhile (\<lambda>k. \<not> k + T > N) xs)" for k
      proof -
        from that have "k \<in> set xs" "\<not> k + T > N"
          by (auto dest: set_takeWhileD)
        with ge 2 show ?thesis by fastforce
      qed
      then show ?thesis by (simp add: filter_empty_conv)
    qed
    with 2 show ?thesis by simp
  next
    case 3
    then show ?thesis by simp
  qed
qed

lemma sorted_py_range: "py_range N S = Inr ks \<Longrightarrow> 0 < S \<Longrightarrow> sorted ks"
  by (auto simp add: py_range_def sorted_map sorted_wrt_iff_nth_less split: if_splits)

lemma last_row_columns:
  assumes "0 < S" "H mod S \<noteq> 0" "sweep_positions W T S = Inr js"
  shows "last_row H W T S = Inr (map (\<lambda>j. (H - T, j)) (filter (\<lambda>j. j + T \<noteq> W) js))"
proof -
  from assms(1) obtain ks where r: "py_range W S = Inr ks"
    by (auto simp add: py_range_def)
  with assms(3) have js: "js = takeWhile (\<lambda>k. \<not> k + T > W) ks"
    by (simp add: sweep_positions_def)
  from r assms(1) have "sorted ks" by (rule sorted_py_range)
  then show ?thesis
    using assms(2) by (simp add: last_row_def r js takeWhile_strict)
qed

lemma last_columns_rows:
  assumes "0 < S" "W mod S \<noteq> 0" "sweep_positions H T S = Inr is"
  shows "last_columns H W T S = Inr (map (\<lambda>i. (i, W - T)) (filter (\<lambda>i. i + T \<noteq> H) is))"
proof -
  from assms(1) obtain ks where r: "py_range H S = Inr ks"
    by (auto simp add: py_range_def)
  with assms(3) have "is": "is = takeWhile (\<lambda>k. \<not> k + T > H) ks"
    by (simp add: sweep_positions_def)
  from r assms(1) have "sorted ks" by (rule sorted_py_range)
  then show ?thesis
    using assms(2) by (simp add: last_columns_def r "is" takeWhile_strict)
qed

text \<open>
  C7 (edge passes visit the positions of the sweep). They do not: for width 20, side 10
  and stride 10 the sweep visits columns 0 and 10, and the last row of a 25 by 20 image
  visits column 0 only, since its loop leaves at \<open>j + T >= W\<close> where the sweep leaves at
  \<open>j + T > W\<close>. The last column of a 20 by 25 image likewise visits row 0 only.
\<close>

theorem last_row_stops_one_tile_early:
  "sweep_positions 20 10 10 = Inr [0, 10]
   \<and> last_row 25 20 10 10 = Inr [(15, 0)]
   \<and> last_columns 20 25 10 10 = Inr [(0, 15)]"
  by (simp add: sweep_positions_def last_row_def last_columns_def py_range_20_10)

text \<open>
  C2 (a record is written only for a tile with a detection left). The edge passes write
  a record whatever the filter returns: with a detector that finds nothing, the scan of a
  25 by 20 image (side 10, stride 10) writes nothing for its four sweep tiles and an
  empty record \<open>4.pkl\<close> for the last-row tile at \<open>(15, 0)\<close>.
\<close>

theorem edge_tile_writes_empty_record:
  "tile_extraction_part
     \<lparr>device = ''cpu'', thres_nms = 1 / 10, thres_prediction = 6 / 10, thres_mask = 95 / 100,
      thres_size = 3 / 10, tile_size = 10, rolling_window = 10\<rparr>
     (\<lambda>i j. []) 25 20
   = Inr [(4, \<lparr>c_scores = [], c_masks = [], c_boxes = []\<rparr>)]"
  by (simp add: tile_extraction_part_def primary_sweep_def sweep_positions_def last_row_def
      last_columns_def bottom_right_def py_range_20_10 py_range_25_10
      extract_tile_run_model_save_def filter_tile_def keep_scores_def save_intermediate_step_def)

section \<open>The detection filter\<close>

lemma relative_size_ok_div:
  "tile_area \<noteq> 0 \<Longrightarrow>
   relative_size_ok a tile_area b = (box_area b / real_of_int tile_area \<le> thres_size a)"
  by (simp add: relative_size_ok_def)

lemma length_trim_and_translate: "length (trim_and_translate a i j ds) = length ds"
  by (induction ds) simp_all

lemma score_trim_and_translate: "map det_score (trim_and_translate a i j ds) = map det_score ds"
  by (induction ds) simp_all

lemma filter_tile_survivors:
  "filter_tile a ds ta i j =
     trim_and_translate a i j
       (keep_mask_mass (keep_absolute_size (keep_relative_size a ta (keep_scores a ds))))"
proof -
  have e1: "keep_relative_size a ta [] = []" by (simp add: keep_relative_size_def)
  have e2: "keep_absolute_size [] = []" by (simp add: keep_absolute_size_def)
  have e3: "keep_mask_mass [] = []" by (simp add: keep_mask_mass_def)
  show ?thesis
    by (simp add: filter_tile_def Let_def e1 e2 e3)
qed

lemma interval_filter:
  "filter (\<lambda>r. A \<le> int r \<and> int r < B) [0..<n] = [nat A..<nat (min B (int n))]"
proof (rule sorted_distinct_set_unique)
  show "sorted (filter (\<lambda>r. A \<le> int r \<and> int r < B) [0..<n])"
    by (rule sorted_wrt_filter) simp
  show "distinct (filter (\<lambda>r. A \<le> int r \<and> int r < B) [0..<n])" by simp
  show "sorted [nat A..<nat (min B (int n))]" by simp
  show "distinct [nat A..<nat (min B (int n))]" by simp
  show "set (filter (\<lambda>r. A \<le> int r \<and> int r < B) [0..<n]) = set [nat A..<nat (min B (int n))]"
    by auto
qed

lemma slice_indices_upt:
  "slice_indices n lo hi = [slice_bound n lo..<slice_bound n hi]"
proof -
  let ?A = "if lo < 0 then lo + int n else lo"
  let ?B = "if hi < 0 then hi + int n else hi"
  have b: "nat (min ?B (int n)) = slice_bound n hi"
    by (auto simp add: slice_bound_def min_def max_def)
  have "[nat ?A..<slice_bound n hi] = [slice_bound n lo..<slice_bound n hi]"
  proof (cases "nat ?A \<le> n")
    case True
    then have "nat ?A = slice_bound n lo"
      by (auto simp add: slice_bound_def min_def max_def split: if_splits)
    then show ?thesis by simp
  next
    case False
    moreover have "slice_bound n hi \<le> n" by (auto simp add: slice_bound_def)
    moreover from False have "slice_bound n lo = n"
      by (auto simp add: slice_bound_def min_def split: if_splits)
    ultimately show ?thesis by simp
  qed
  then show ?thesis unfolding slice_indices_def interval_filter b .
qed

lemma nth_upt_take_drop:
  assumes "b \<le> length xs"
  shows "map ((!) xs) [a..<b] = take (b - a) (drop a xs)"
proof -
  have "take (b - a) (drop a xs) = take (b - a) (drop a (map ((!) xs) [0..<length xs]))"
    by (simp add: map_nth)
  also have "\<dots> = map ((!) xs) (take (b - a) [a..<length xs])"
    by (simp add: take_map drop_map)
  also have "take (b - a) [a..<length xs] = [a..<b]"
  proof (cases "a \<le> b")
    case True
    with assms show ?thesis by simp
  next
    case False
    then show ?thesis by simp
  qed
  finally show ?thesis by simp
qed

lemma py_slice_indices: "py_slice lo hi xs = map ((!) xs) (slice_indices (length xs) lo hi)"
proof -
  have le: "slice_bound (length xs) hi \<le> length xs" by (auto simp add: slice_bound_def)
  show ?thesis
    unfolding slice_indices_upt py_slice_def by (rule nth_upt_take_drop [OF le, symmetric])
qed


lemma map_cells: "map f xs = map (\<lambda>r. f (xs ! r)) [0..<length xs]"
  by (rule nth_equalityI) simp_all

lemma binarize_cells:
  assumes "wf_array m"
  shows "binarize a m =
     Array2 (ncols m)
       (map (\<lambda>r. map (\<lambda>c. if cell m r c \<ge> thres_mask a then 1 else 0) [0..<ncols m])
          [0..<nrows m])"
proof -
  let ?f = "\<lambda>p. if p \<ge> thres_mask a then 1 else (0::int)"
  have "map (map ?f) (rows m) = map (\<lambda>r. map ?f (rows m ! r)) [0..<nrows m]"
    unfolding nrows_def by (rule map_cells)
  also have "\<dots> = map (\<lambda>r. map (\<lambda>c. ?f (cell m r c)) [0..<ncols m]) [0..<nrows m]"
  proof (rule map_cong [OF refl])
    fix r assume "r \<in> set [0..<nrows m]"
    then have "length (rows m ! r) = ncols m"
      using assms by (simp add: wf_array_def nrows_def list_all_length)
    then show "map ?f (rows m ! r) = map (\<lambda>c. ?f (cell m r c)) [0..<ncols m]"
      using map_cells [of ?f "rows m ! r"] by (simp add: cell_def)
  qed
  finally show ?thesis by (simp add: binarize_def)
qed

lemma slice2_cells:
  assumes "wf_array m"
  shows "slice2 r0 r1 c0 c1 m =
     Array2 (length (slice_indices (ncols m) c0 c1))
       (map (\<lambda>r. map (\<lambda>c. cell m r c) (slice_indices (ncols m) c0 c1))
          (slice_indices (nrows m) r0 r1))"
proof -
  have "map (py_slice c0 c1) (py_slice r0 r1 (rows m))
        = map (\<lambda>r. py_slice c0 c1 (rows m ! r)) (slice_indices (nrows m) r0 r1)"
    by (simp add: py_slice_indices [of r0 r1 "rows m"] nrows_def o_def)
  also have "\<dots> = map (\<lambda>r. map (\<lambda>c. cell m r c) (slice_indices (ncols m) c0 c1))
                      (slice_indices (nrows m) r0 r1)"
  proof (rule map_cong [OF refl])
    fix r assume "r \<in> set (slice_indices (nrows m) r0 r1)"
    then have "r < nrows m" by (simp add: slice_indices_def)
    then have "length (rows m ! r) = ncols m"
      using assms by (simp add: wf_array_def nrows_def list_all_length)
    then show "py_slice c0 c1 (rows m ! r) = map (\<lambda>c. cell m r c) (slice_indices (ncols m) c0 c1)"
      by (simp add: py_slice_indices [of c0 c1 "rows m ! r"] cell_def)
  qed
  finally show ?thesis
    by (simp add: slice2_def slice_indices_upt)
qed

lemma mask_sum_cells:
  assumes "wf_array m"
  shows "mask_sum m = (\<Sum>r = 0..<nrows m. \<Sum>c = 0..<ncols m. cell m r c)"
proof -
  have "mask_sum m = (\<Sum>r = 0..<nrows m. sum_list (rows m ! r))"
    by (simp add: mask_sum_def nrows_def sum_list_sum_nth)
  also have "\<dots> = (\<Sum>r = 0..<nrows m. \<Sum>c = 0..<ncols m. cell m r c)"
  proof (rule sum.cong [OF refl])
    fix r assume "r \<in> {0..<nrows m}"
    then have "length (rows m ! r) = ncols m"
      using assms by (simp add: wf_array_def nrows_def list_all_length)
    then show "sum_list (rows m ! r) = (\<Sum>c = 0..<ncols m. cell m r c)"
      by (simp add: sum_list_sum_nth cell_def)
  qed
  finally show ?thesis .
qed

lemma wf_binarize: "wf_array m \<Longrightarrow> wf_array (binarize a m)"
  by (simp add: wf_array_def binarize_def list_all_iff)

lemma trim_and_translate_steps:
  assumes "list_all (\<lambda>d. wf_array (det_mask d)) ds"
  shows "map unanchored (trim_and_translate a i j ds)
         = step7_translate i j (step6_crop (step5_binarize (thres_mask a) ds))
         \<and> list_all (\<lambda>d. fst (det_mask d) = (j, i)) (trim_and_translate a i j ds)"
  using assms
proof (induction ds)
  case Nil
  show ?case by (simp add: step7_translate_def step6_crop_def step5_binarize_def)
next
  case (Cons d ds)
  obtain x0 y0 x1 y1 where b: "det_box d = (x0, y0, x1, y1)" by (cases "det_box d") auto
  from Cons.prems have wf: "wf_array (det_mask d)" by simp
  have bin: "binarize a (det_mask d)
      = Array2 (ncols (det_mask d))
          (map (\<lambda>r. map (\<lambda>c. if cell (det_mask d) r c \<ge> thres_mask a then 1 else 0)
                     [0..<ncols (det_mask d)]) [0..<nrows (det_mask d)])"
    by (rule binarize_cells [OF wf])
  have crop: "trim_mask (det_box d) (binarize a (det_mask d))
      = Array2 (length (slice_indices (ncols (binarize a (det_mask d))) (py_int x0) (py_int x1)))
          (map (\<lambda>r. map (\<lambda>c. cell (binarize a (det_mask d)) r c)
                     (slice_indices (ncols (binarize a (det_mask d))) (py_int x0) (py_int x1)))
             (slice_indices (nrows (binarize a (det_mask d))) (py_int y0) (py_int y1)))"
    unfolding b trim_mask.simps by (rule slice2_cells [OF wf_binarize [OF wf]])
  have hd: "unanchored \<lparr>det_score = det_score d,
               det_mask = ((j, i), trim_mask (det_box d) (binarize a (det_mask d))),
               det_box = translate_box i j (det_box d)\<rparr>
        = hd (step7_translate i j (step6_crop (step5_binarize (thres_mask a) [d])))"
    unfolding crop unfolding bin
    by (simp add: unanchored_def step7_translate_def step6_crop_def step5_binarize_def b)
  from Cons have IH: "map unanchored (trim_and_translate a i j ds)
         = step7_translate i j (step6_crop (step5_binarize (thres_mask a) ds))"
    and A: "list_all (\<lambda>d. fst (det_mask d) = (j, i)) (trim_and_translate a i j ds)" by simp_all
  have "map unanchored (trim_and_translate a i j (d # ds))
        = hd (step7_translate i j (step6_crop (step5_binarize (thres_mask a) [d])))
          # step7_translate i j (step6_crop (step5_binarize (thres_mask a) ds))"
    unfolding trim_and_translate.simps list.map hd IH ..
  also have "\<dots> = step7_translate i j (step6_crop (step5_binarize (thres_mask a) (d # ds)))"
    by (simp add: step7_translate_def step6_crop_def step5_binarize_def)
  finally show ?case using A by simp
qed

lemma keep_steps:
  assumes "ta \<noteq> 0" and "list_all (\<lambda>d. wf_array (det_mask d)) ds"
  shows "keep_scores a ds = step1_score (thres_prediction a) ds"
    and "keep_relative_size a ta ds = step2_relative_size (thres_size a) ta ds"
    and "keep_absolute_size ds = step3_absolute_size ds"
    and "keep_mask_mass ds = step4_mask_mass ds"
proof -
  show "keep_scores a ds = step1_score (thres_prediction a) ds"
    by (simp add: keep_scores_def step1_score_def)
  show "keep_relative_size a ta ds = step2_relative_size (thres_size a) ta ds"
    unfolding keep_relative_size_def step2_relative_size_def
    by (rule filter_cong [OF refl]) (auto simp add: relative_size_ok_div [OF assms(1)])
  show "keep_absolute_size ds = step3_absolute_size ds"
    unfolding keep_absolute_size_def step3_absolute_size_def
    by (rule filter_cong [OF refl]) auto
  show "keep_mask_mass ds = step4_mask_mass ds"
    unfolding keep_mask_mass_def step4_mask_mass_def
  proof (rule filter_cong [OF refl])
    fix d assume "d \<in> set ds"
    with assms(2) have "wf_array (det_mask d)" by (simp add: list_all_iff)
    then show "(30 < mask_sum (det_mask d))
       = (30 < (\<Sum>r = 0..<nrows (det_mask d). \<Sum>c = 0..<ncols (det_mask d). cell (det_mask d) r c))"
      by (simp add: mask_sum_cells)
  qed
qed

lemma list_all_filter: "list_all P xs \<Longrightarrow> list_all P (filter Q xs)"
  by (simp add: list_all_iff)

lemma py_int_truncates:
  "\<bar>real_of_int (py_int x)\<bar> \<le> \<bar>x\<bar> \<and> \<bar>x - real_of_int (py_int x)\<bar> < 1"
  unfolding py_int_def by (cases "0 \<le> x") (simp_all, linarith+)

lemma filter_tile_is_spec:
  assumes "ta \<noteq> 0" and "list_all (\<lambda>d. wf_array (det_mask d)) ds"
  shows "map unanchored (filter_tile a ds ta i j) = detection_filter_spec a ds ta i j
         \<and> list_all (\<lambda>d. fst (det_mask d) = (j, i)) (filter_tile a ds ta i j)"
proof -
  let ?wf = "list_all (\<lambda>d. wf_array (det_mask d))"
  let ?s1 = "step1_score (thres_prediction a) ds"
  let ?s2 = "step2_relative_size (thres_size a) ta ?s1"
  let ?s3 = "step3_absolute_size ?s2"
  let ?s4 = "step4_mask_mass ?s3"
  have k1: "keep_scores a ds = ?s1" by (rule keep_steps(1) [OF assms])
  have w1: "?wf ?s1" unfolding step1_score_def by (rule list_all_filter [OF assms(2)])
  have k2: "keep_relative_size a ta ?s1 = ?s2" by (rule keep_steps(2) [OF assms(1) w1])
  have w2: "?wf ?s2" unfolding step2_relative_size_def by (rule list_all_filter [OF w1])
  have k3: "keep_absolute_size ?s2 = ?s3" by (rule keep_steps(3) [OF assms(1) w2])
  have w3: "?wf ?s3" unfolding step3_absolute_size_def by (rule list_all_filter [OF w2])
  have k4: "keep_mask_mass ?s3 = ?s4" by (rule keep_steps(4) [OF assms(1) w3])
  have w4: "?wf ?s4" unfolding step4_mask_mass_def by (rule list_all_filter [OF w3])
  have e2: "step2_relative_size (thres_size a) ta [] = []" by (simp add: step2_relative_size_def)
  have e3: "step3_absolute_size [] = []" by (simp add: step3_absolute_size_def)
  have e4: "step4_mask_mass [] = []" by (simp add: step4_mask_mass_def)
  have e5: "step7_translate i j (step6_crop (step5_binarize (thres_mask a) [])) = []"
    by (simp add: step7_translate_def step6_crop_def step5_binarize_def)
  have spec: "detection_filter_spec a ds ta i j
              = step7_translate i j (step6_crop (step5_binarize (thres_mask a) ?s4))"
    by (simp add: detection_filter_spec_def Let_def e2 e3 e4 e5)
  have code: "filter_tile a ds ta i j = trim_and_translate a i j ?s4"
    unfolding filter_tile_survivors k1 k2 k3 k4 ..
  show ?thesis unfolding spec code by (rule trim_and_translate_steps [OF w4])
qed


text \<open>
  C3 (the filter is the seven steps in order). For a non-zero tile area and detector
  masks that are rectangular arrays, what \<open>filter_tile\<close> returns is, detection by
  detection, what the seven steps of the specification give when applied in their order
  to the whole set: the same scores, the same thresholded and cropped masks, the same
  translated boxes, and nothing once a step has emptied the set. Each mask comes with
  the anchor \<open>(originCol, originRow)\<close>. A box at \<open>[0,0,10,10]\<close> in the tile with origin
  row 50 and column 20 comes out as \<open>[20,50,30,60]\<close>. The pixel extent of a box is taken
  with \<open>int\<close>, which drops the fraction of a coordinate.
\<close>

theorem filter_tile_steps:
  assumes "tile_area \<noteq> 0" and "list_all (\<lambda>d. wf_array (det_mask d)) res"
  shows "map unanchored (filter_tile a res tile_area originRow originCol)
           = detection_filter_spec a res tile_area originRow originCol
         \<and> list_all (\<lambda>d. fst (det_mask d) = (originCol, originRow))
              (filter_tile a res tile_area originRow originCol)
         \<and> translate_box 50 20 (0, 0, 10, 10) = (20, 50, 30, 60)
         \<and> step7_translate 50 20 [\<lparr>det_score = s, det_mask = m, det_box = (0, 0, 10, 10)\<rparr>]
             = [\<lparr>det_score = s, det_mask = m, det_box = (20, 50, 30, 60)\<rparr>]
         \<and> \<bar>real_of_int (py_int x)\<bar> \<le> \<bar>x\<bar> \<and> \<bar>x - real_of_int (py_int x)\<bar> < 1"
proof -
  have "step7_translate 50 20 [\<lparr>det_score = s, det_mask = m, det_box = (0, 0, 10, 10)\<rparr>]
             = [\<lparr>det_score = s, det_mask = m, det_box = (20, 50, 30, 60)\<rparr>]"
    by (simp add: step7_translate_def)
  moreover have "translate_box 50 20 (0, 0, 10, 10) = (20, 50, 30, 60)" by simp
  moreover note filter_tile_is_spec [OF assms, of a originRow originCol] py_int_truncates [of x]
  ultimately show ?thesis by blast
qed

theorem filter_tile_steps_witness:
  "(let a = \<lparr>device = ''cpu'', thres_nms = 1 / 10, thres_prediction = 3 / 5,
              thres_mask = 19 / 20, thres_size = 7 / 10, tile_size = 8, rolling_window = 8\<rparr>;
        m = Array2 8
              [[1, 1, 1, 1, 1, 1, 1, 1],
               [1, 1, 1, 1, 1, 1, 1, 1],
               [1 / 2, 19 / 20, 1 / 2, 1 / 2, 1, 1 / 2, 1 / 2, 1 / 2],
               [1 / 2, 1 / 2, 1, 1 / 2, 1 / 2, 1 / 2, 1 / 2, 1],
               [1 / 2, 1 / 2, 1 / 2, 1 / 2, 1 / 2, 1 / 2, 19 / 20, 1 / 2],
               [1 / 2, 1 / 2, 1 / 2, 1 / 2, 1 / 2, 1 / 2, 1 / 2, 1 / 2],
               [1 / 2, 1, 1 / 2, 1 / 2, 1 / 2, 1 / 2, 1 / 2, 1 / 2],
               [1, 1, 1, 1, 1, 1, 1, 1]];
        res = [\<lparr>det_score = 1 / 2, det_mask = m, det_box = (17 / 10, 2, 8, 73 / 10)\<rparr>,
               \<lparr>det_score = 9 / 10, det_mask = m, det_box = (0, 0, 8, 8)\<rparr>,
               \<lparr>det_score = 9 / 10, det_mask = m, det_box = (0, 0, 5, 5)\<rparr>,
               \<lparr>det_score = 9 / 10, det_mask = Array2 8 (replicate 8 (replicate 8 (1 / 4))),
                det_box = (17 / 10, 2, 8, 73 / 10)\<rparr>,
               \<lparr>det_score = 9 / 10, det_mask = m, det_box = (17 / 10, 2, 8, 73 / 10)\<rparr>];
        cropped = Array2 7
              [[1, 0, 0, 1, 0, 0, 0],
               [0, 1, 0, 0, 0, 0, 1],
               [0, 0, 0, 0, 0, 1, 0],
               [0, 0, 0, 0, 0, 0, 0],
               [1, 0, 0, 0, 0, 0, 0]]
    in (64::int) \<noteq> 0
       \<and> list_all (\<lambda>d. wf_array (det_mask d)) res
       \<and> filter_tile a res 64 50 20
           = [\<lparr>det_score = 9 / 10, det_mask = ((20, 50), cropped),
               det_box = (217 / 10, 52, 28, 573 / 10)\<rparr>]
       \<and> detection_filter_spec a res 64 50 20
           = [\<lparr>det_score = 9 / 10, det_mask = cropped,
               det_box = (217 / 10, 52, 28, 573 / 10)\<rparr>])"
proof -
  define a where "a = \<lparr>device = ''cpu'', thres_nms = 1 / 10, thres_prediction = 3 / 5,
              thres_mask = 19 / 20, thres_size = 7 / 10, tile_size = 8, rolling_window = 8\<rparr>"
  define m :: "real array2" where "m = Array2 8
              [[1, 1, 1, 1, 1, 1, 1, 1],
               [1, 1, 1, 1, 1, 1, 1, 1],
               [1 / 2, 19 / 20, 1 / 2, 1 / 2, 1, 1 / 2, 1 / 2, 1 / 2],
               [1 / 2, 1 / 2, 1, 1 / 2, 1 / 2, 1 / 2, 1 / 2, 1],
               [1 / 2, 1 / 2, 1 / 2, 1 / 2, 1 / 2, 1 / 2, 19 / 20, 1 / 2],
               [1 / 2, 1 / 2, 1 / 2, 1 / 2, 1 / 2, 1 / 2, 1 / 2, 1 / 2],
               [1 / 2, 1, 1 / 2, 1 / 2, 1 / 2, 1 / 2, 1 / 2, 1 / 2],
               [1, 1, 1, 1, 1, 1, 1, 1]]"
  define res where "res = [\<lparr>det_score = 1 / 2, det_mask = m, det_box = (17 / 10, 2, 8, 73 / 10)\<rparr>,
               \<lparr>det_score = 9 / 10, det_mask = m, det_box = (0, 0, 8, 8)\<rparr>,
               \<lparr>det_score = 9 / 10, det_mask = m, det_box = (0, 0, 5, 5)\<rparr>,
               \<lparr>det_score = 9 / 10, det_mask = Array2 8 (replicate 8 (replicate 8 (1 / 4))),
                det_box = (17 / 10, 2, 8, 73 / 10)\<rparr>,
               \<lparr>det_score = 9 / 10, det_mask = m, det_box = (17 / 10, 2, 8, 73 / 10)\<rparr>]"
  define cropped :: "int array2" where "cropped = Array2 7
              [[1, 0, 0, 1, 0, 0, 0],
               [0, 1, 0, 0, 0, 0, 1],
               [0, 0, 0, 0, 0, 1, 0],
               [0, 0, 0, 0, 0, 0, 0],
               [1, 0, 0, 0, 0, 0, 0]]"
  have wf: "list_all (\<lambda>d. wf_array (det_mask d)) res"
    by (simp add: res_def m_def wf_array_def list_all_iff)
  have sum: "mask_sum m = 469 / 10"
    by (simp add: mask_sum_def m_def)
  have code: "filter_tile a res 64 50 20
           = [\<lparr>det_score = 9 / 10, det_mask = ((20, 50), cropped),
               det_box = (217 / 10, 52, 28, 573 / 10)\<rparr>]"
    by (simp add: filter_tile_def Let_def keep_scores_def keep_relative_size_def
        keep_absolute_size_def keep_mask_mass_def relative_size_ok_def sum
        res_def a_def cropped_def)
       (simp add: m_def binarize_def slice2_def py_slice_def slice_bound_def py_int_def mask_sum_def
          sum_list_replicate)
  have "detection_filter_spec a res 64 50 20 = map unanchored (filter_tile a res 64 50 20)"
    using filter_tile_steps [of 64 res a 50 20, OF _ wf] by simp
  then have "detection_filter_spec a res 64 50 20
           = [\<lparr>det_score = 9 / 10, det_mask = cropped,
               det_box = (217 / 10, 52, 28, 573 / 10)\<rparr>]"
    unfolding code by (simp add: unanchored_def)
  with wf code show ?thesis
    unfolding Let_def a_def m_def res_def cropped_def by simp
qed

lemma box_area_translate: "box_area (translate_box i j b) = box_area b"
  by (cases b) simp

lemma trim_and_translate_all:
  "list_all (\<lambda>d. P (det_score d) (box_area (det_box d))) ds \<Longrightarrow>
   list_all (\<lambda>d. P (det_score d) (box_area (det_box d))) (trim_and_translate a i j ds)"
  by (induction ds) (simp_all add: box_area_translate)

lemma filter_tile_passes_again:
  "list_all (\<lambda>d. det_score d \<ge> thres_prediction a
                  \<and> relative_size_ok a ta (det_box d)
                  \<and> box_area (det_box d) > 30) (filter_tile a ds ta i j)"
proof -
  let ?P = "\<lambda>s ar. s \<ge> thres_prediction a
              \<and> (if ta = 0 then ar < 0 else ar / real_of_int ta \<le> thres_size a) \<and> ar > 30"
  have "list_all (\<lambda>d. ?P (det_score d) (box_area (det_box d)))
          (keep_mask_mass (keep_absolute_size (keep_relative_size a ta (keep_scores a ds))))"
    by (simp add: keep_mask_mass_def keep_absolute_size_def keep_relative_size_def keep_scores_def
        list_all_iff relative_size_ok_def)
  then have "list_all (\<lambda>d. ?P (det_score d) (box_area (det_box d))) (filter_tile a ds ta i j)"
    unfolding filter_tile_survivors by (rule trim_and_translate_all)
  then show ?thesis by (simp add: relative_size_ok_def)
qed

text \<open>
  C8, as stated: applying the filter a second time to an already-filtered set is a
  no-op. It is not. A detection with a mask of mass 46.9 passes the filter and comes
  out with its box moved by the tile origin and its mask thresholded and cropped to
  five rows of seven entries, six of them 1. A second call on that result raises
  \<open>AttributeError\<close> at line 53; and were the same scores, masks and boxes handed over as
  tensors again, the mask mass of 6 would fail the fourth step and nothing would be left.
\<close>

theorem filter_tile_twice_counterexample:
  "(let a = \<lparr>device = ''cpu'', thres_nms = 1 / 10, thres_prediction = 3 / 5,
              thres_mask = 19 / 20, thres_size = 7 / 10, tile_size = 8, rolling_window = 8\<rparr>;
        res = [\<lparr>det_score = 9 / 10,
                det_mask = Array2 8
                  [[1, 1, 1, 1, 1, 1, 1, 1],
                   [1, 1, 1, 1, 1, 1, 1, 1],
                   [1 / 2, 19 / 20, 1 / 2, 1 / 2, 1, 1 / 2, 1 / 2, 1 / 2],
                   [1 / 2, 1 / 2, 1, 1 / 2, 1 / 2, 1 / 2, 1 / 2, 1],
                   [1 / 2, 1 / 2, 1 / 2, 1 / 2, 1 / 2, 1 / 2, 19 / 20, 1 / 2],
                   [1 / 2, 1 / 2, 1 / 2, 1 / 2, 1 / 2, 1 / 2, 1 / 2, 1 / 2],
                   [1 / 2, 1, 1 / 2, 1 / 2, 1 / 2, 1 / 2, 1 / 2, 1 / 2],
                   [1, 1, 1, 1, 1, 1, 1, 1]],
                det_box = (17 / 10, 2, 8, 73 / 10)\<rparr>];
        filtered = [\<lparr>det_score = 9 / 10,
                det_mask = ((20, 50), Array2 7
                  [[1, 0, 0, 1, 0, 0, 0],
                   [0, 1, 0, 0, 0, 0, 1],
                   [0, 0, 0, 0, 0, 1, 0],
                   [0, 0, 0, 0, 0, 0, 0],
                   [1, 0, 0, 0, 0, 0, 0]]),
                det_box = (217 / 10, 52, 28, 573 / 10)\<rparr>];
        again = [\<lparr>det_score = 9 / 10,
                det_mask = Array2 7
                  [[1, 0, 0, 1, 0, 0, 0],
                   [0, 1, 0, 0, 0, 0, 1],
                   [0, 0, 0, 0, 0, 1, 0],
                   [0, 0, 0, 0, 0, 0, 0],
                   [1, 0, 0, 0, 0, 0, 0]],
                det_box = (217 / 10, 52, 28, 573 / 10)\<rparr>]
    in filter_tile_call a (Tensors res) 64 50 20 = Inr (Arrays filtered)
       \<and> filter_tile_call a (Arrays filtered) 64 50 20 = Inl AttributeError
       \<and> filter_tile_call a (Arrays filtered) 64 50 20 \<noteq> Inr (Arrays filtered)
       \<and> filter_tile_call a (Tensors again) 64 50 20 = Inr (Arrays []))"
  by (simp add: Let_def filter_tile_call_def filter_tile_def keep_scores_def
      keep_relative_size_def keep_absolute_size_def keep_mask_mass_def relative_size_ok_def
      mask_sum_def binarize_def slice2_def py_slice_def slice_bound_def py_int_def)

text \<open>
  C8, amended (the threshold steps shrink and are idempotent; the filter as a whole is
  not). Each of the four selections returns a subsequence of its input, so \<open>filter_tile\<close>
  never returns more detections than it was given; each selection applied twice is the
  selection applied once; and the four in sequence, applied again to the detections
  they kept (the ones \<open>filter_tile\<close> goes on to trim and translate), keep all of them.
  The detections \<open>filter_tile\<close> returns still pass the score threshold and both size
  thresholds, since moving a box does not change its area. A call on what the detector
  returns gives the filtered set; a call on a filtered set raises.
\<close>

theorem filter_steps_shrink_idempotent:
  "subseq (keep_scores a ds) ds
   \<and> subseq (keep_relative_size a ta ds) ds
   \<and> subseq (keep_absolute_size ds) ds
   \<and> subseq (keep_mask_mass ds) ds
   \<and> length (filter_tile a ds ta i j) \<le> length ds
   \<and> keep_scores a (keep_scores a ds) = keep_scores a ds
   \<and> keep_relative_size a ta (keep_relative_size a ta ds) = keep_relative_size a ta ds
   \<and> keep_absolute_size (keep_absolute_size ds) = keep_absolute_size ds
   \<and> keep_mask_mass (keep_mask_mass ds) = keep_mask_mass ds
   \<and> (let kept = keep_mask_mass (keep_absolute_size (keep_relative_size a ta (keep_scores a ds)))
      in keep_mask_mass (keep_absolute_size (keep_relative_size a ta (keep_scores a kept))) = kept
         \<and> length (filter_tile a ds ta i j) = length kept
         \<and> map det_score (filter_tile a ds ta i j) = map det_score kept)
   \<and> list_all (\<lambda>d. det_score d \<ge> thres_prediction a
                    \<and> relative_size_ok a ta (det_box d)
                    \<and> box_area (det_box d) > 30) (filter_tile a ds ta i j)
   \<and> filter_tile_call a (Tensors ds) ta i j = Inr (Arrays (filter_tile a ds ta i j))
   \<and> filter_tile_call a (Arrays fs) ta' i' j' = Inl AttributeError"
proof -
  have "length (filter_tile a ds ta i j) \<le> length ds"
    unfolding filter_tile_survivors length_trim_and_translate
    by (simp add: keep_scores_def keep_relative_size_def keep_absolute_size_def keep_mask_mass_def
        le_trans [OF length_filter_le length_filter_le])
  moreover have
    "let kept = keep_mask_mass (keep_absolute_size (keep_relative_size a ta (keep_scores a ds)))
      in keep_mask_mass (keep_absolute_size (keep_relative_size a ta (keep_scores a kept))) = kept
         \<and> length (filter_tile a ds ta i j) = length kept
         \<and> map det_score (filter_tile a ds ta i j) = map det_score kept"
    unfolding filter_tile_survivors length_trim_and_translate Let_def score_trim_and_translate
    by (auto simp add: keep_scores_def keep_relative_size_def keep_absolute_size_def
        keep_mask_mass_def intro: filter_cong)
  moreover note filter_tile_passes_again [of a ta ds i j]
  ultimately show ?thesis
    by (simp add: keep_scores_def keep_relative_size_def keep_absolute_size_def keep_mask_mass_def
        filter_tile_call_def)
qed

section \<open>The checkpoint records\<close>

text \<open>
  For records the scan wrote that hold at least one detection between them, the three
  collections come back flat, in directory order, and aligned: position \<open>k\<close> of each
  is the box, the score and the mask of the same detection.
\<close>

lemma box_rows_saved: "concat (map box_rows (map (\<lambda>d. Box1 (det_box d)) res)) = map det_box res"
  by (induction res) simp_all

lemma score_tensors_saved:
  "concat (map score_tensor (map (\<lambda>d. Score0 (det_score d)) res)) = map det_score res"
  by (induction res) simp_all

lemma load_loop_written:
  "load_loop (map written xs) (bs, ss, ms) =
     (bs @ map det_box (concat (map (case_option [] id) xs)),
      ss @ map (\<lambda>d. [det_score d]) (concat (map (case_option [] id) xs)),
      ms @ map det_mask (concat (map (case_option [] id) xs)))"
proof (induction xs arbitrary: bs ss ms)
  case Nil
  then show ?case by simp
next
  case (Cons x xs)
  show ?case
  proof (cases x)
    case None
    then show ?thesis using Cons.IH by simp
  next
    case (Some res)
    then show ?thesis
      using Cons.IH by (simp add: save_intermediate_step_def box_rows_saved comp_def)
  qed
qed

lemma load_all_steps_written:
  "load_all_steps (map written xs) =
     (let ds = concat (map (case_option [] id) xs)
      in if ds = [] then Inl RuntimeError
         else Inr \<lparr>boxes = map det_box ds, scores = map det_score ds, masks = map det_mask ds\<rparr>)"
proof -
  have "concat (map (\<lambda>d. [det_score d]) ds) = map det_score ds" for ds :: "'a detection list"
    by (induction ds) simp_all
  then show ?thesis
    by (simp add: load_all_steps_def load_loop_written Let_def)
qed


text \<open>
  C4 (reading back any number of records). With no record in the directory, and also
  with records that hold no detection (what an edge tile writes when its filter
  returned nothing), \<open>load_all_steps\<close> hands \<open>torch.vstack\<close> an empty list and raises.
\<close>

theorem load_all_steps_fails_without_detections:
  "load_all_steps [] = Inl RuntimeError
   \<and> load_all_steps [File (save_intermediate_step [])] = Inl RuntimeError
   \<and> load_all_steps [NotFile, File \<lparr>c_scores = [], c_masks = [], c_boxes = []\<rparr>]
       = Inl RuntimeError"
  by (simp add: load_all_steps_def save_intermediate_step_def)

section \<open>Input normalisation\<close>



section \<open>Deduplication\<close>

lemma greedy_nms_subset: "set (greedy_nms thr bs xs) \<subseteq> set xs"
  by (induction thr bs xs rule: greedy_nms.induct) auto

lemma greedy_nms_tail:
  "y \<in> set (greedy_nms thr bs (filter Q rest)) \<Longrightarrow> y \<in> set rest \<and> Q y"
  using greedy_nms_subset [of thr bs "filter Q rest"] by auto

lemma greedy_nms_distinct: "distinct xs \<Longrightarrow> distinct (greedy_nms thr bs xs)"
proof (induction thr bs xs rule: greedy_nms.induct)
  case (1 thr bs)
  then show ?case by simp
next
  case (2 thr bs k rest)
  define kept where "kept = greedy_nms thr bs (filter (\<lambda>m. \<not> iou (bs ! k) (bs ! m) > thr) rest)"
  from 2(2) have "k \<notin> set rest" and d: "distinct (filter (\<lambda>m. \<not> iou (bs ! k) (bs ! m) > thr) rest)"
    by simp_all
  then have a: "k \<notin> set kept"
    unfolding kept_def using greedy_nms_tail [of k thr bs _ rest] by blast
  have b: "distinct kept" unfolding kept_def using d by (rule 2(1))
  have "greedy_nms thr bs (k # rest) = k # kept" by (simp add: kept_def)
  with a b show ?case by simp
qed

lemma greedy_nms_sorted_wrt:
  "sorted_wrt P xs \<Longrightarrow> sorted_wrt P (greedy_nms thr bs xs)"
proof (induction thr bs xs rule: greedy_nms.induct)
  case (1 thr bs)
  then show ?case by simp
next
  case (2 thr bs k rest)
  define kept where "kept = greedy_nms thr bs (filter (\<lambda>m. \<not> iou (bs ! k) (bs ! m) > thr) rest)"
  from 2(2) have all: "\<forall>y \<in> set rest. P k y" and srt: "sorted_wrt P rest" by simp_all
  have "sorted_wrt P (filter (\<lambda>m. \<not> iou (bs ! k) (bs ! m) > thr) rest)"
    using srt by (rule sorted_wrt_filter)
  then have b: "sorted_wrt P kept" unfolding kept_def by (rule 2(1))
  have a: "\<forall>y \<in> set kept. P k y"
    unfolding kept_def using greedy_nms_tail [of _ thr bs _ rest] all by blast
  have "greedy_nms thr bs (k # rest) = k # kept" by (simp add: kept_def)
  with a b show ?case by simp
qed

lemma greedy_nms_separated:
  "sorted_wrt (\<lambda>k m. \<not> iou (bs ! k) (bs ! m) > thr) (greedy_nms thr bs xs)"
proof (induction thr bs xs rule: greedy_nms.induct)
  case (1 thr bs)
  then show ?case by simp
next
  case (2 thr bs k rest)
  define kept where "kept = greedy_nms thr bs (filter (\<lambda>m. \<not> iou (bs ! k) (bs ! m) > thr) rest)"
  have a: "\<forall>y \<in> set kept. \<not> iou (bs ! k) (bs ! y) > thr"
    unfolding kept_def
    using greedy_nms_tail [of _ thr bs "\<lambda>m. \<not> iou (bs ! k) (bs ! m) > thr" rest] by blast
  have b: "sorted_wrt (\<lambda>k m. \<not> iou (bs ! k) (bs ! m) > thr) kept"
    unfolding kept_def by (rule 2)
  have "greedy_nms thr bs (k # rest) = k # kept" by (simp add: kept_def)
  with a b show ?case by simp
qed

lemma greedy_nms_suppressed:
  "sorted_wrt P xs \<Longrightarrow> x \<in> set xs \<Longrightarrow> x \<notin> set (greedy_nms thr bs xs) \<Longrightarrow>
   \<exists>m \<in> set (greedy_nms thr bs xs). iou (bs ! m) (bs ! x) > thr \<and> P m x"
proof (induction thr bs xs rule: greedy_nms.induct)
  case (1 thr bs)
  then show ?case by simp
next
  case (2 thr bs k rest)
  define kept where "kept = greedy_nms thr bs (filter (\<lambda>m. \<not> iou (bs ! k) (bs ! m) > thr) rest)"
  have unf: "greedy_nms thr bs (k # rest) = k # kept" by (simp add: kept_def)
  from 2(3,4) have xr: "x \<in> set rest" and xk: "x \<notin> set kept" unfolding unf by auto
  from 2(2) have all: "\<forall>y \<in> set rest. P k y" and srt: "sorted_wrt P rest" by simp_all
  show ?case
  proof (cases "iou (bs ! k) (bs ! x) > thr")
    case True
    moreover have "P k x" using all xr by blast
    ultimately show ?thesis unfolding unf by auto
  next
    case False
    then have "x \<in> set (filter (\<lambda>m. \<not> iou (bs ! k) (bs ! m) > thr) rest)" using xr by simp
    moreover have "sorted_wrt P (filter (\<lambda>m. \<not> iou (bs ! k) (bs ! m) > thr) rest)"
      using srt by (rule sorted_wrt_filter)
    ultimately have "\<exists>m \<in> set kept. iou (bs ! m) (bs ! x) > thr \<and> P m x"
      using 2(1) xk unfolding kept_def by blast
    then show ?thesis unfolding unf by auto
  qed
qed


lemma score_order:
  fixes ss :: "real list"
  shows "sorted_wrt (\<lambda>k m. ss ! k \<ge> ss ! m) (sort_key (\<lambda>k. - (ss ! k)) [0..<n])"
proof -
  have "sorted (map (\<lambda>k. - (ss ! k)) (sort_key (\<lambda>k. - (ss ! k)) [0..<n]))"
    by (rule sorted_sort_key)
  then show ?thesis by (simp add: sorted_map)
qed

lemma iou_commute: "iou a b = iou b a"
proof -
  obtain ax0 ay0 ax1 ay1 where a: "a = (ax0, ay0, ax1, ay1)" by (cases a) auto
  obtain bx0 by0 bx1 by1 where b: "b = (bx0, by0, bx1, by1)" by (cases b) auto
  have "min ax1 bx1 = min bx1 ax1" "max ax0 bx0 = max bx0 ax0"
    "min ay1 by1 = min by1 ay1" "max ay0 by0 = max by0 ay0"
    by (simp_all add: min.commute max.commute)
  then show ?thesis unfolding a b iou.simps Let_def by (simp only: add.commute)
qed

lemma order2: "[0..<length [b1, b2]] = [0, Suc 0]"
  by (simp add: upt_conv_Cons)

lemma nms_pair1:
  "s1 > s2 \<Longrightarrow> nms [b1, b2] [s1, s2] thr = (if iou b1 b2 > thr then [0] else [0, 1])"
  unfolding nms_def order2 by simp

lemma nms_pair2:
  "s1 > s2 \<Longrightarrow> nms [b2, b1] [s2, s1] thr = (if iou b1 b2 > thr then [1] else [1, 0])"
  unfolding nms_def order2 by (simp add: iou_commute [of b1 b2])

lemma nms_facts:
  fixes ss :: "real list"
  shows "distinct (nms bs ss thr)"
    and "set (nms bs ss thr) \<subseteq> {..<length bs}"
    and "sorted_wrt (\<lambda>k m. ss ! k \<ge> ss ! m) (nms bs ss thr)"
    and "sorted_wrt (\<lambda>k m. \<not> iou (bs ! k) (bs ! m) > thr) (nms bs ss thr)"
    and "\<forall>x < length bs. x \<notin> set (nms bs ss thr) \<longrightarrow>
           (\<exists>m \<in> set (nms bs ss thr). iou (bs ! m) (bs ! x) > thr \<and> ss ! m \<ge> ss ! x)"
proof -
  let ?order = "sort_key (\<lambda>k. - (ss ! k)) [0..<length bs]"
  show "distinct (nms bs ss thr)"
    unfolding nms_def by (rule greedy_nms_distinct) simp
  show "set (nms bs ss thr) \<subseteq> {..<length bs}"
    unfolding nms_def using greedy_nms_subset [of thr bs ?order] by auto
  show "sorted_wrt (\<lambda>k m. ss ! k \<ge> ss ! m) (nms bs ss thr)"
    unfolding nms_def by (rule greedy_nms_sorted_wrt) (rule score_order)
  show "sorted_wrt (\<lambda>k m. \<not> iou (bs ! k) (bs ! m) > thr) (nms bs ss thr)"
    unfolding nms_def by (rule greedy_nms_separated)
  show "\<forall>x < length bs. x \<notin> set (nms bs ss thr) \<longrightarrow>
           (\<exists>m \<in> set (nms bs ss thr). iou (bs ! m) (bs ! x) > thr \<and> ss ! m \<ge> ss ! x)"
  proof (intro allI impI)
    fix x assume "x < length bs" "x \<notin> set (nms bs ss thr)"
    then have "x \<in> set ?order" "x \<notin> set (greedy_nms thr bs ?order)"
      by (simp_all add: nms_def)
    with score_order [of ss "length bs"]
    show "\<exists>m \<in> set (nms bs ss thr). iou (bs ! m) (bs ! x) > thr \<and> ss ! m \<ge> ss ! x"
      unfolding nms_def by (rule greedy_nms_suppressed)
  qed
qed

text \<open>
  C6 (deduplication by greedy non-max suppression). With one score and one mask per
  box, \<open>deduplicate\<close> succeeds and applies the index list of \<open>nms\<close> to boxes, scores
  and masks alike, so the entry at each position of the three results comes from the same
  input position. The indices are distinct and in range, in descending order of score;
  no accepted box overlaps an earlier accepted one by more than the threshold; and every
  rejected box overlaps by more than the threshold an accepted box whose score is at
  least its own. Of two boxes with intersection over union \<open>0.5\<close> and threshold \<open>0.1\<close>
  only the higher-scoring one is kept, in either input order; with intersection over
  union \<open>0.05\<close> both are kept, the higher-scoring one first.
\<close>

theorem deduplicate_by_nms:
  assumes "length (scores out) = length (boxes out)"
    and "length (masks out) = length (boxes out)"
  shows "deduplicate thr out =
           Inr \<lparr>boxes = map (\<lambda>k. boxes out ! k) (nms (boxes out) (scores out) thr),
                scores = map (\<lambda>k. scores out ! k) (nms (boxes out) (scores out) thr),
                masks = map (\<lambda>k. masks out ! k) (nms (boxes out) (scores out) thr)\<rparr>
    \<and> distinct (nms (boxes out) (scores out) thr)
    \<and> set (nms (boxes out) (scores out) thr) \<subseteq> {..<length (boxes out)}
    \<and> sorted_wrt (\<lambda>k m. scores out ! k \<ge> scores out ! m) (nms (boxes out) (scores out) thr)
    \<and> sorted_wrt (\<lambda>k m. \<not> iou (boxes out ! k) (boxes out ! m) > thr)
         (nms (boxes out) (scores out) thr)
    \<and> (\<forall>x < length (boxes out). x \<notin> set (nms (boxes out) (scores out) thr) \<longrightarrow>
         (\<exists>m \<in> set (nms (boxes out) (scores out) thr).
            iou (boxes out ! m) (boxes out ! x) > thr \<and> scores out ! m \<ge> scores out ! x))
    \<and> (s1 > s2 \<and> iou b1 b2 = 1 / 2 \<longrightarrow>
         nms [b1, b2] [s1, s2] (1 / 10) = [0] \<and> nms [b2, b1] [s2, s1] (1 / 10) = [1])
    \<and> (s1 > s2 \<and> iou b1 b2 = 1 / 20 \<longrightarrow>
         nms [b1, b2] [s1, s2] (1 / 10) = [0, 1] \<and> nms [b2, b1] [s2, s1] (1 / 10) = [1, 0])"
proof -
  let ?idx = "nms (boxes out) (scores out) thr"
  have "\<not> list_ex (\<lambda>k. k \<ge> length (masks out)) ?idx"
    using nms_facts(2) [where bs = "boxes out" and ss = "scores out" and thr = thr] assms(2)
    by (auto simp add: list_ex_iff)
  then have "deduplicate thr out =
           Inr \<lparr>boxes = map (\<lambda>k. boxes out ! k) ?idx,
                scores = map (\<lambda>k. scores out ! k) ?idx,
                masks = map (\<lambda>k. masks out ! k) ?idx\<rparr>"
    using assms(1) by (simp add: deduplicate_def Let_def)
  moreover have "s1 > s2 \<and> iou b1 b2 = 1 / 2 \<longrightarrow>
         nms [b1, b2] [s1, s2] (1 / 10) = [0] \<and> nms [b2, b1] [s2, s1] (1 / 10) = [1]"
    by (simp add: nms_pair1 nms_pair2)
  moreover have "s1 > s2 \<and> iou b1 b2 = 1 / 20 \<longrightarrow>
         nms [b1, b2] [s1, s2] (1 / 10) = [0, 1] \<and> nms [b2, b1] [s2, s1] (1 / 10) = [1, 0]"
    by (simp add: nms_pair1 nms_pair2)
  ultimately show ?thesis
    using nms_facts [where bs = "boxes out" and ss = "scores out" and thr = thr] by blast
qed


theorem deduplicate_by_nms_witness:
  "length (scores \<lparr>boxes = [(0, 0, 3, 1), (1, 0, 4, 1)], scores = [7 / 10, 9 / 10],
                   masks = [''first'', ''second'']\<rparr>) = 2
   \<and> (9 / 10 :: real) > 7 / 10
   \<and> iou (1, 0, 4, 1) (0, 0, 3, 1) = 1 / 2
   \<and> nms [(0, 0, 3, 1), (1, 0, 4, 1)] [7 / 10, 9 / 10] (1 / 10) = [1]
   \<and> deduplicate (1 / 10)
        \<lparr>boxes = [(0, 0, 3, 1), (1, 0, 4, 1)], scores = [7 / 10, 9 / 10],
         masks = [''first'', ''second'']\<rparr>
       = Inr \<lparr>boxes = [(1, 0, 4, 1)], scores = [9 / 10], masks = [''second'']\<rparr>"
proof -
  let ?out = "\<lparr>boxes = [(0, 0, 3, 1), (1, 0, 4, 1)], scores = [7 / 10, 9 / 10],
               masks = [''first'', ''second'']\<rparr>"
  have l1: "length (scores ?out) = length (boxes ?out)" by simp
  have l2: "length (masks ?out) = length (boxes ?out)" by simp
  have i: "iou (1, 0, 4, 1) (0, 0, 3, 1) = 1 / 2" by simp
  note t = deduplicate_by_nms [OF l1 l2, of "1 / 10" "7 / 10" "9 / 10" "(1, 0, 4, 1)" "(0, 0, 3, 1)"]
  have n: "nms [(0, 0, 3, 1), (1, 0, 4, 1)] [7 / 10, 9 / 10] (1 / 10) = [1]"
    using t i by simp
  have "deduplicate (1 / 10) ?out
       = Inr \<lparr>boxes = [(1, 0, 4, 1)], scores = [9 / 10], masks = [''second'']\<rparr>"
    using t [THEN conjunct1] by (simp add: n)
  with i n show ?thesis by simp
qed


section \<open>Compositing\<close>

text \<open>
  What \<open>filter_tile\<close> hands on: from well-formed detector masks, well-formed binary
  masks; from boxes inside the tile, and a tile inside an image of fewer than \<open>2^31\<close>
  rows and columns, boxes inside the canvas.
\<close>

lemma length_py_slice:
  "length (py_slice lo hi xs) = slice_bound (length xs) hi - slice_bound (length xs) lo"
proof -
  have "slice_bound (length xs) hi \<le> length xs"
    unfolding slice_bound_def by (cases "hi < 0") auto
  then show ?thesis by (simp add: py_slice_def)
qed

lemma set_py_slice: "set (py_slice lo hi xs) \<subseteq> set xs"
  unfolding py_slice_def using set_take_subset set_drop_subset by fast

lemma wf_slice2: "wf_array m \<Longrightarrow> wf_array (slice2 r0 r1 c0 c1 m)"
proof -
  assume wf: "wf_array m"
  have "length (py_slice c0 c1 row) = slice_bound (ncols m) c1 - slice_bound (ncols m) c0"
    if "row \<in> set (py_slice r0 r1 (rows m))" for row
  proof -
    from that set_py_slice have "row \<in> set (rows m)" by fast
    with wf have "length row = ncols m" by (simp add: wf_array_def list_all_iff)
    then show ?thesis by (simp add: length_py_slice)
  qed
  then show ?thesis by (simp add: wf_array_def slice2_def list_all_iff)
qed

lemma binary_slice2: "binary m \<Longrightarrow> binary (slice2 r0 r1 c0 c1 m)"
proof -
  assume b: "binary m"
  have "v = 0 \<or> v = 1"
    if "row \<in> set (py_slice r0 r1 (rows m))" "v \<in> set (py_slice c0 c1 row)" for row v
  proof -
    from that(1) set_py_slice have "row \<in> set (rows m)" by fast
    moreover from that(2) set_py_slice have "v \<in> set row" by fast
    ultimately show ?thesis using b by (auto simp add: binary_def list_all_iff)
  qed
  then show ?thesis by (auto simp add: binary_def slice2_def list_all_iff)
qed

lemma binarize_props:
  "wf_array m \<Longrightarrow> wf_array (binarize a m)" "binary (binarize a m)"
  by (auto simp add: binarize_def wf_array_def binary_def list_all_iff)

lemma trim_and_translate_masks:
  "list_all (\<lambda>d. wf_array (det_mask d)) ds \<Longrightarrow>
   list_all (\<lambda>d. wf_array (snd (det_mask d)) \<and> binary (snd (det_mask d)))
     (trim_and_translate a i j ds)"
proof (induction ds)
  case Nil
  then show ?case by simp
next
  case (Cons d ds)
  obtain x0 y0 x1 y1 where b: "det_box d = (x0, y0, x1, y1)" by (cases "det_box d") auto
  from Cons.prems have "wf_array (det_mask d)" by simp
  then have "wf_array (trim_mask (det_box d) (binarize a (det_mask d)))"
    "binary (trim_mask (det_box d) (binarize a (det_mask d)))"
    by (simp_all add: b wf_slice2 binary_slice2 binarize_props)
  with Cons show ?case by simp
qed

lemma filter_tile_masks:
  assumes "list_all (\<lambda>d. wf_array (det_mask d)) res"
  shows "list_all (\<lambda>d. wf_array (snd (det_mask d)) \<and> binary (snd (det_mask d)))
           (filter_tile a res ta i j)"
proof -
  have "list_all (\<lambda>d. wf_array (det_mask d))
          (keep_mask_mass (keep_absolute_size (keep_relative_size a ta (keep_scores a res))))"
    using assms
    by (simp add: keep_mask_mass_def keep_absolute_size_def keep_relative_size_def keep_scores_def
        list_all_iff)
  then show ?thesis unfolding filter_tile_survivors by (rule trim_and_translate_masks)
qed

lemma py_int_add: "0 \<le> x \<Longrightarrow> 0 \<le> k \<Longrightarrow> py_int (x + real_of_int k) = py_int x + k"
  by (simp add: py_int_def)

lemma py_int_mono: "0 \<le> x \<Longrightarrow> x \<le> y \<Longrightarrow> py_int x \<le> py_int y"
  by (simp add: py_int_def floor_mono)

lemma py_int_le: "0 \<le> x \<Longrightarrow> x \<le> real_of_int T \<Longrightarrow> py_int x \<le> T"
  by (simp add: py_int_def floor_le_iff)

lemma torch_int_in: "0 \<le> py_int x \<Longrightarrow> py_int x < 2 ^ 31 \<Longrightarrow> torch_int x = py_int x"
  by (simp add: torch_int_def)

lemma translate_box_in_canvas:
  assumes "box_in_tile T b" "0 \<le> i" "i + T \<le> int H" "0 \<le> j" "j + T \<le> int W"
    and "int H < 2 ^ 31" "int W < 2 ^ 31"
  shows "box_in_canvas H W (translate_box i j b)"
proof -
  obtain x0 y0 x1 y1 where b: "b = (x0, y0, x1, y1)" by (cases b) auto
  from assms(1) have x: "0 \<le> x0" "x0 \<le> x1" "x1 \<le> real_of_int T"
    and y: "0 \<le> y0" "y0 \<le> y1" "y1 \<le> real_of_int T"
    by (simp_all add: b)
  have x1: "0 \<le> x1" and y1: "0 \<le> y1" using x y by linarith+
  have p0: "0 \<le> py_int x0" "0 \<le> py_int y0" using x y by (simp_all add: py_int_def)
  have p1: "py_int x0 \<le> py_int x1" "py_int y0 \<le> py_int y1"
    using x y by (simp_all add: py_int_mono)
  have p2: "py_int x1 \<le> T" "py_int y1 \<le> T"
    using x y x1 y1 by (simp_all add: py_int_le)
  have a: "py_int (x0 + real_of_int j) = py_int x0 + j" "py_int (x1 + real_of_int j) = py_int x1 + j"
    "py_int (y0 + real_of_int i) = py_int y0 + i" "py_int (y1 + real_of_int i) = py_int y1 + i"
    using x y x1 y1 assms(2,4) by (simp_all add: py_int_add)
  have "torch_int (x0 + real_of_int j) = py_int x0 + j"
    "torch_int (x1 + real_of_int j) = py_int x1 + j"
    "torch_int (y0 + real_of_int i) = py_int y0 + i"
    "torch_int (y1 + real_of_int i) = py_int y1 + i"
    using p0 p1 p2 assms(2-7) by (simp_all add: torch_int_in a)
  then show ?thesis
    using p0 p1 p2 assms(2-5) by (simp add: b)
qed

lemma trim_and_translate_boxes:
  assumes "0 \<le> i" "i + T \<le> int H" "0 \<le> j" "j + T \<le> int W"
    and "int H < 2 ^ 31" "int W < 2 ^ 31"
  shows "list_all (\<lambda>d. box_in_tile T (det_box d)) ds \<Longrightarrow>
         list_all (\<lambda>d. box_in_canvas H W (det_box d)) (trim_and_translate a i j ds)"
  by (induction ds) (simp_all add: translate_box_in_canvas [OF _ assms])

lemma filter_tile_boxes:
  assumes "list_all (\<lambda>d. box_in_tile T (det_box d)) res"
    and "0 \<le> i" "i + T \<le> int H" "0 \<le> j" "j + T \<le> int W"
    and "int H < 2 ^ 31" "int W < 2 ^ 31"
  shows "list_all (\<lambda>d. box_in_canvas H W (det_box d)) (filter_tile a res ta i j)"
proof -
  have "list_all (\<lambda>d. box_in_tile T (det_box d))
          (keep_mask_mass (keep_absolute_size (keep_relative_size a ta (keep_scores a res))))"
    using assms(1)
    by (simp add: keep_mask_mass_def keep_absolute_size_def keep_relative_size_def keep_scores_def
        list_all_iff)
  then show ?thesis
    unfolding filter_tile_survivors by (rule trim_and_translate_boxes [OF assms(2-7)])
qed

lemma slice_bound_in: "0 \<le> k \<Longrightarrow> k \<le> int n \<Longrightarrow> slice_bound n k = nat k"
  by (simp add: slice_bound_def)

lemma py_slice_take: "0 \<le> k \<Longrightarrow> py_slice 0 k xs = take (nat k) xs"
  by (cases "nat k \<le> length xs") (simp_all add: py_slice_def slice_bound_def min_def)

lemma wf_arrayD: "wf_array m \<Longrightarrow> r < nrows m \<Longrightarrow> length (rows m ! r) = ncols m"
  by (simp add: wf_array_def nrows_def list_all_length)

lemma add_into_shape:
  "add_into final r0 r1 c0 c1 m = Inr final' \<Longrightarrow>
   nrows final' = nrows final \<and> ncols final' = ncols final"
  by (auto simp add: add_into_def Let_def nrows_def split: if_splits)

lemma add_into_cell:
  assumes wf: "wf_array final"
    and r0: "0 \<le> r0" "r0 + int (nrows m) \<le> int (nrows final)"
    and c0: "0 \<le> c0" "c0 + int (ncols m) \<le> int (ncols final)"
  shows "\<exists>final'. add_into final r0 (r0 + int (nrows m)) c0 (c0 + int (ncols m)) m = Inr final'
     \<and> wf_array final' \<and> nrows final' = nrows final \<and> ncols final' = ncols final
     \<and> (\<forall>r < nrows final. \<forall>c < ncols final.
          cell final' r c = cell final r c +
            (if nat r0 \<le> r \<and> r < nat r0 + nrows m \<and> nat c0 \<le> c \<and> c < nat c0 + ncols m
             then cell m (r - nat r0) (c - nat c0) else 0))"
proof -
  have b1: "slice_bound (nrows final) r0 = nat r0"
    using r0 by (simp add: slice_bound_in)
  have b2: "slice_bound (nrows final) (r0 + int (nrows m)) = nat r0 + nrows m"
    using r0 by (simp add: slice_bound_in nat_add_distrib)
  have b3: "slice_bound (ncols final) c0 = nat c0"
    using c0 by (simp add: slice_bound_in)
  have b4: "slice_bound (ncols final) (c0 + int (ncols m)) = nat c0 + ncols m"
    using c0 by (simp add: slice_bound_in nat_add_distrib)
  define final' where "final' = Array2 (ncols final)
                (map (\<lambda>(r, row).
                   map (\<lambda>(c, v).
                     if nat r0 \<le> r \<and> r < nat r0 + nrows m \<and> nat c0 \<le> c \<and> c < nat c0 + ncols m
                     then v + rows m ! (if nrows m = 1 then 0 else r - nat r0)
                                     ! (if ncols m = 1 then 0 else c - nat c0)
                     else v) (enumerate 0 row))
                   (enumerate 0 (rows final)))"
  have eq: "add_into final r0 (r0 + int (nrows m)) c0 (c0 + int (ncols m)) m = Inr final'"
    unfolding add_into_def Let_def b1 b2 b3 b4 final'_def by simp
  have nr: "nrows final' = nrows final" and nc: "ncols final' = ncols final"
    by (simp_all add: final'_def nrows_def)
  have wf': "wf_array final'"
    using wf by (auto simp add: final'_def wf_array_def list_all_length nth_enumerate_eq)
  have cells: "cell final' r c = cell final r c +
            (if nat r0 \<le> r \<and> r < nat r0 + nrows m \<and> nat c0 \<le> c \<and> c < nat c0 + ncols m
             then cell m (r - nat r0) (c - nat c0) else 0)"
    if "r < nrows final" "c < ncols final" for r c
  proof -
    have len: "length (rows final ! r) = ncols final" using wf that(1) by (rule wf_arrayD)
    have i1: "r - nat r0 = 0" if "nrows m = 1" "nat r0 \<le> r" "r < nat r0 + nrows m"
      using that by simp
    have i2: "c - nat c0 = 0" if "ncols m = 1" "nat c0 \<le> c" "c < nat c0 + ncols m"
      using that by simp
    show ?thesis
      using that len i1 i2
      by (auto simp add: final'_def cell_def nrows_def nth_enumerate_eq)
  qed
  show ?thesis using eq nr nc wf' cells by blast
qed


lemma times_array_props:
  "nrows (times_array m k) = nrows m" "ncols (times_array m k) = ncols m"
  "wf_array m \<Longrightarrow> wf_array (times_array m k)"
  "wf_array m \<Longrightarrow> r < nrows m \<Longrightarrow> c < ncols m \<Longrightarrow>
     cell (times_array m k) r c = cell m r c * k"
  by (simp_all add: times_array_def nrows_def wf_array_def cell_def list_all_length)

lemma slice2_props:
  assumes "0 \<le> h" "0 \<le> w" "wf_array m"
  shows "nrows (slice2 0 h 0 w m) = min (nat h) (nrows m)"
    and "ncols (slice2 0 h 0 w m) = min (nat w) (ncols m)"
    and "wf_array (slice2 0 h 0 w m)"
    and "r < min (nat h) (nrows m) \<Longrightarrow> c < min (nat w) (ncols m) \<Longrightarrow>
         cell (slice2 0 h 0 w m) r c = cell m r c"
proof -
  have rs: "rows (slice2 0 h 0 w m) = map (take (nat w)) (take (nat h) (rows m))"
    using assms(1,2) by (simp add: slice2_def py_slice_take)
  have nc: "ncols (slice2 0 h 0 w m) = min (nat w) (ncols m)"
    using assms(2) by (simp add: slice2_def slice_bound_def)
  show "nrows (slice2 0 h 0 w m) = min (nat h) (nrows m)"
    by (simp add: nrows_def rs min.commute)
  show "ncols (slice2 0 h 0 w m) = min (nat w) (ncols m)" by (rule nc)
  show "wf_array (slice2 0 h 0 w m)"
    using assms(3) unfolding wf_array_def nc rs
    by (auto simp add: list_all_length min.commute)
  show "cell (slice2 0 h 0 w m) r c = cell m r c"
    if "r < min (nat h) (nrows m)" "c < min (nat w) (ncols m)"
    using that by (simp add: cell_def rs nrows_def)
qed

lemma paint_one_cell:
  assumes wf: "wf_array final"
    and box: "box_in_canvas (nrows final) (ncols final) b"
    and wfm: "wf_array m"
  shows "\<exists>final'. paint_one i b (anchor, m) final = Inr final'
     \<and> wf_array final' \<and> nrows final' = nrows final \<and> ncols final' = ncols final
     \<and> (\<forall>r < nrows final. \<forall>c < ncols final.
          cell final' r c = cell final r c + (int i + 1) * stamp b m r c)"
proof -
  obtain x0 y0 x1 y1 where b: "b = (x0, y0, x1, y1)" by (cases b) auto
  define bx0 by0 bx1 by1 where "bx0 = torch_int x0" and "by0 = torch_int y0"
    and "bx1 = torch_int x1" and "by1 = torch_int y1"
  note bdefs = bx0_def by0_def bx1_def by1_def
  from box have hx: "0 \<le> bx0" "bx0 \<le> bx1" "bx1 \<le> int (ncols final)"
    and hy: "0 \<le> by0" "by0 \<le> by1" "by1 \<le> int (nrows final)"
    by (simp_all add: b bdefs)
  define mask where "mask = times_array m (int i + 1)"
  have mk: "nrows mask = nrows m" "ncols mask = ncols m" "wf_array mask"
    using wfm by (simp_all add: mask_def times_array_props)
  define M where "M = (if by1 - by0 \<noteq> int (nrows mask) \<or> bx1 - bx0 \<noteq> int (ncols mask)
     then slice2 0 (min (int (nrows mask)) (by1 - by0)) 0 (min (int (ncols mask)) (bx1 - bx0)) mask
     else mask)"
  have unf: "paint_one i b (anchor, m) final
      = add_into final by0 (by0 + int (nrows M)) bx0 (bx0 + int (ncols M)) M"
  proof (cases "by1 - by0 \<noteq> int (nrows mask) \<or> bx1 - bx0 \<noteq> int (ncols mask)")
    case True
    then show ?thesis
      by (simp add: b Let_def M_def mask_def [symmetric] bdefs [symmetric])
  next
    case False
    then have "by0 + int (nrows mask) = by1" "bx0 + int (ncols mask) = bx1" by simp_all
    with False show ?thesis
      by (simp add: b Let_def M_def mask_def [symmetric] bdefs [symmetric])
  qed
  have Mr: "nrows M = min (nrows m) (nat (by1 - by0))"
    and Mc: "ncols M = min (ncols m) (nat (bx1 - bx0))"
    and Mwf: "wf_array M"
    using mk hx hy by (auto simp add: M_def slice2_props min_def)
  have Mcell: "cell M r c = cell m r c * (int i + 1)"
    if "r < nrows M" "c < ncols M" for r c
  proof (cases "by1 - by0 \<noteq> int (nrows mask) \<or> bx1 - bx0 \<noteq> int (ncols mask)")
    case True
    then have "M = slice2 0 (min (int (nrows mask)) (by1 - by0)) 0
                     (min (int (ncols mask)) (bx1 - bx0)) mask"
      by (simp add: M_def)
    moreover have "r < min (nat (min (int (nrows mask)) (by1 - by0))) (nrows mask)"
      "c < min (nat (min (int (ncols mask)) (bx1 - bx0))) (ncols mask)"
      using that Mr Mc mk hx hy by (simp_all add: min_def split: if_splits)
    moreover have "0 \<le> min (int (nrows mask)) (by1 - by0)" "0 \<le> min (int (ncols mask)) (bx1 - bx0)"
      using hx hy by simp_all
    ultimately have "cell M r c = cell mask r c"
      using mk(3) by (simp add: slice2_props(4))
    also have "\<dots> = cell m r c * (int i + 1)"
      using that Mr Mc wfm by (simp add: mask_def times_array_props)
    finally show ?thesis .
  next
    case False
    then have "M = mask" by (simp add: M_def)
    then show ?thesis using that mk wfm by (simp add: mask_def times_array_props)
  qed
  have fit: "by0 + int (nrows M) \<le> int (nrows final)" "bx0 + int (ncols M) \<le> int (ncols final)"
  proof -
    have "int (nrows M) \<le> by1 - by0" using Mr hy by linarith
    then show "by0 + int (nrows M) \<le> int (nrows final)" using hy by linarith
    have "int (ncols M) \<le> bx1 - bx0" using Mc hx by linarith
    then show "bx0 + int (ncols M) \<le> int (ncols final)" using hx by linarith
  qed
  from add_into_cell [OF wf hy(1) fit(1) hx(1) fit(2)]
  obtain final' where f: "add_into final by0 (by0 + int (nrows M)) bx0 (bx0 + int (ncols M)) M = Inr final'"
    "wf_array final'" "nrows final' = nrows final" "ncols final' = ncols final"
    and cells: "\<forall>r < nrows final. \<forall>c < ncols final.
          cell final' r c = cell final r c +
            (if nat by0 \<le> r \<and> r < nat by0 + nrows M \<and> nat bx0 \<le> c \<and> c < nat bx0 + ncols M
             then cell M (r - nat by0) (c - nat bx0) else 0)"
    by blast
  have "cell final' r c = cell final r c + (int i + 1) * stamp b m r c"
    if rc: "r < nrows final" "c < ncols final" for r c
  proof (cases "nat by0 \<le> r \<and> r < nat by0 + nrows M \<and> nat bx0 \<le> c \<and> c < nat bx0 + ncols M")
    case True
    then have "r - nat by0 < nrows M" "c - nat bx0 < ncols M" by auto
    then have "cell M (r - nat by0) (c - nat bx0) = cell m (r - nat by0) (c - nat bx0) * (int i + 1)"
      by (rule Mcell)
    moreover have "stamp b m r c = cell m (r - nat by0) (c - nat bx0)"
      using True by (simp add: b bdefs [symmetric] Mr Mc)
    ultimately show ?thesis using cells rc True by (auto simp add: mult.commute)
  next
    case False
    then have "stamp b m r c = 0"
      unfolding b stamp.simps bdefs [symmetric] Mr Mc by auto
    then show ?thesis using cells rc False by auto
  qed
  with f unf show ?thesis by auto
qed


lemma paint_one_shape:
  "paint_one i b am final = Inr final' \<Longrightarrow>
   nrows final' = nrows final \<and> ncols final' = ncols final"
  by (cases b; cases am) (auto simp add: Let_def split: if_splits dest: add_into_shape)

lemma paint_loop_shape:
  "paint_loop i bs ms final = Inr final' \<Longrightarrow>
   nrows final' = nrows final \<and> ncols final' = ncols final"
proof (induction i bs ms final rule: paint_loop.induct)
  case (1 i ms final)
  then show ?case by simp
next
  case (2 i b bs final)
  then show ?case by simp
next
  case (3 i b bs m ms final)
  from 3(2) obtain final1 where p: "paint_one i b m final = Inr final1"
    and l: "paint_loop (i + 1) bs ms final1 = Inr final'"
    by (auto split: sum.splits)
  from 3(1) [OF p l] paint_one_shape [OF p] show ?case by simp
qed

lemma paint_loop_cell:
  assumes "wf_array final" "length bs \<le> length ms"
    and "\<forall>k < length bs. box_in_canvas (nrows final) (ncols final) (bs ! k)
                           \<and> wf_array (snd (ms ! k))"
  shows "\<exists>final'. paint_loop i bs ms final = Inr final'
     \<and> wf_array final' \<and> nrows final' = nrows final \<and> ncols final' = ncols final
     \<and> (\<forall>r < nrows final. \<forall>c < ncols final.
          cell final' r c = cell final r c
            + (\<Sum>k < length bs. (int (i + k) + 1) * stamp (bs ! k) (snd (ms ! k)) r c))"
  using assms
proof (induction bs arbitrary: i ms final)
  case Nil
  then show ?case by simp
next
  case (Cons b bs)
  from Cons.prems(2) obtain m ms' where ms: "ms = m # ms'" by (cases ms) auto
  obtain anchor mm where m: "m = (anchor, mm)" by (cases m) auto
  from Cons.prems(3) have b0: "box_in_canvas (nrows final) (ncols final) b" "wf_array mm"
    by (auto simp add: ms m)
  from paint_one_cell [OF Cons.prems(1) b0, of i anchor]
  obtain final1 where p: "paint_one i b (anchor, mm) final = Inr final1"
    and w1: "wf_array final1" and s1: "nrows final1 = nrows final" "ncols final1 = ncols final"
    and c1: "\<forall>r < nrows final. \<forall>c < ncols final.
          cell final1 r c = cell final r c + (int i + 1) * stamp b mm r c"
    by blast
  have rest: "\<forall>k < length bs. box_in_canvas (nrows final1) (ncols final1) (bs ! k)
                           \<and> wf_array (snd (ms' ! k))"
    using Cons.prems(3) by (auto simp add: ms s1)
  have len: "length bs \<le> length ms'" using Cons.prems(2) by (simp add: ms)
  from Cons.IH [OF w1 len rest, of "i + 1"]
  obtain final' where l: "paint_loop (i + 1) bs ms' final1 = Inr final'"
    and w2: "wf_array final'" and s2: "nrows final' = nrows final1" "ncols final' = ncols final1"
    and c2: "\<forall>r < nrows final1. \<forall>c < ncols final1.
          cell final' r c = cell final1 r c
            + (\<Sum>k < length bs. (int (i + 1 + k) + 1) * stamp (bs ! k) (snd (ms' ! k)) r c)"
    by blast
  have run: "paint_loop i (b # bs) ms final = Inr final'"
    using l by (simp add: ms m p)
  have "cell final' r c = cell final r c
            + (\<Sum>k < length (b # bs). (int (i + k) + 1) * stamp ((b # bs) ! k) (snd (ms ! k)) r c)"
    if rc: "r < nrows final" "c < ncols final" for r c
  proof -
    have "cell final' r c = cell final r c + (int i + 1) * stamp b mm r c
            + (\<Sum>k < length bs. (int (i + 1 + k) + 1) * stamp (bs ! k) (snd (ms' ! k)) r c)"
      using c1 c2 rc s1 by simp
    moreover have "(\<Sum>k < length (b # bs). (int (i + k) + 1) * stamp ((b # bs) ! k) (snd (ms ! k)) r c)
        = (int i + 1) * stamp b mm r c
            + (\<Sum>k < length bs. (int (i + 1 + k) + 1) * stamp (bs ! k) (snd (ms' ! k)) r c)"
    proof -
      let ?f = "\<lambda>k. (int (i + k) + 1) * stamp ((b # bs) ! k) (snd (ms ! k)) r c"
      have "(\<Sum>k < length (b # bs). ?f k) = ?f 0 + (\<Sum>k < length bs. ?f (Suc k))"
        by (simp only: length_Cons sum.lessThan_Suc_shift)
      also have "?f 0 = (int i + 1) * stamp b mm r c" by (simp add: ms m)
      also have "(\<Sum>k < length bs. ?f (Suc k))
          = (\<Sum>k < length bs. (int (i + 1 + k) + 1) * stamp (bs ! k) (snd (ms' ! k)) r c)"
        by (simp add: ms)
      finally show ?thesis .
    qed
    ultimately show ?thesis by simp
  qed
  with run w2 s1 s2 show ?case by auto
qed


lemma zeros_props:
  "nrows (zeros H W) = H" "ncols (zeros H W) = W" "wf_array (zeros H W)"
  "r < H \<Longrightarrow> c < W \<Longrightarrow> cell (zeros H W) r c = 0"
  by (simp_all add: zeros_def nrows_def wf_array_def cell_def list_all_length)

lemma stamp_binary:
  assumes "wf_array m" "binary m"
  shows "stamp b m r c = 0 \<or> stamp b m r c = 1"
proof -
  obtain x0 y0 x1 y1 where b: "b = (x0, y0, x1, y1)" by (cases b) auto
  have "cell m r' c' = 0 \<or> cell m r' c' = 1" if "r' < nrows m" "c' < ncols m" for r' c'
  proof -
    have "length (rows m ! r') = ncols m" using assms(1) that(1) by (rule wf_arrayD)
    then show ?thesis
      using assms(2) that by (simp add: binary_def cell_def nrows_def list_all_length)
  qed
  note bin = this
  show ?thesis
  proof (cases "nat (torch_int y0) \<le> r
         \<and> r < nat (torch_int y0) + min (nrows m) (nat (torch_int y1 - torch_int y0))
         \<and> nat (torch_int x0) \<le> c
         \<and> c < nat (torch_int x0) + min (ncols m) (nat (torch_int x1 - torch_int x0))")
    case True
    then have "r - nat (torch_int y0) < nrows m" "c - nat (torch_int x0) < ncols m" by linarith+
    from bin [OF this] True show ?thesis unfolding b stamp.simps by simp
  next
    case False
    then show ?thesis unfolding b stamp.simps by auto
  qed
qed

lemma sum_ids:
  fixes s :: "nat \<Rightarrow> int"
  assumes "\<forall>k < n. s k = 0 \<or> s k = 1"
  shows "(\<Sum>k < n. (int k + 1) * s k) = (\<Sum>k \<in> {k. k < n \<and> s k = 1}. int k + 1)"
proof -
  have "(\<Sum>k < n. (int k + 1) * s k) = (\<Sum>k \<in> {..<n}. if s k = 1 then int k + 1 else 0)"
    using assms by (intro sum.cong) auto
  also have "\<dots> = (\<Sum>k \<in> {k \<in> {..<n}. s k = 1}. int k + 1)"
    by (rule sum.inter_filter [symmetric]) simp
  also have "{k \<in> {..<n}. s k = 1} = {k. k < n \<and> s k = 1}" by auto
  finally show ?thesis .
qed

lemma ids_positive:
  assumes "finite K"
  shows "(K = {} \<longrightarrow> (\<Sum>k \<in> K. int k + 1) = 0) \<and> (K \<noteq> {} \<longrightarrow> 0 < (\<Sum>k \<in> K. int k + 1))"
  using assms by (auto intro: sum_pos)

lemma py_range_15_10: "py_range 15 10 = Inr [0, 10]"
  by (simp add: py_range_def upt_conv_Cons)

lemma origins_15_15_20_10: "tile_origins 15 15 20 10 = Inr [(- 5, - 5)]"
  by (simp add: tile_origins_def primary_sweep_def sweep_positions_def last_row_def
      last_columns_def bottom_right_def py_range_15_10)

lemma filter_15:
  "filter_tile
     \<lparr>device = ''cpu'', thres_nms = 1 / 10, thres_prediction = 3 / 5, thres_mask = 19 / 20,
      thres_size = 3 / 10, tile_size = 20, rolling_window = 10\<rparr>
     [\<lparr>det_score = 9 / 10, det_mask = Array2 20 (replicate 20 (replicate 20 1)),
       det_box = (0, 0, 8, 8)\<rparr>] 400 (- 5) (- 5)
   = [\<lparr>det_score = 9 / 10, det_mask = ((- 5, - 5), Array2 8 (replicate 8 (replicate 8 1))),
       det_box = (- 5, - 5, 3, 3)\<rparr>]"
  by (simp add: filter_tile_def keep_scores_def keep_relative_size_def
      keep_absolute_size_def keep_mask_mass_def relative_size_ok_def mask_sum_def
      binarize_def slice2_def py_slice_def slice_bound_def py_int_def sum_list_replicate)

lemma scan_15:
  "tile_extraction_part
     \<lparr>device = ''cpu'', thres_nms = 1 / 10, thres_prediction = 3 / 5, thres_mask = 19 / 20,
      thres_size = 3 / 10, tile_size = 20, rolling_window = 10\<rparr>
     (\<lambda>i j. [\<lparr>det_score = 9 / 10, det_mask = Array2 20 (replicate 20 (replicate 20 1)),
                det_box = (0, 0, 8, 8)\<rparr>]) 15 15
   = Inr [(0, \<lparr>c_scores = [Score0 (9 / 10)],
               c_masks = [((- 5, - 5), Array2 8 (replicate 8 (replicate 8 1)))],
               c_boxes = [Box1 (- 5, - 5, 3, 3)]\<rparr>)]"
  by (simp add: tile_extraction_part_def primary_sweep_def sweep_positions_def last_row_def
      last_columns_def bottom_right_def py_range_15_10 filter_15 save_intermediate_step_def)

lemma load_15:
  "load_all_steps
     [File \<lparr>c_scores = [Score0 (9 / 10)],
            c_masks = [((- 5 :: int, - 5 :: int), Array2 8 (replicate 8 (replicate 8 (1 :: int))))],
            c_boxes = [Box1 (- 5, - 5, 3, 3)]\<rparr>]
   = Inr \<lparr>boxes = [(- 5, - 5, 3, 3)], scores = [9 / 10],
          masks = [((- 5, - 5), Array2 8 (replicate 8 (replicate 8 1)))]\<rparr>"
  by (simp add: load_all_steps_def)

lemma dedup_15:
  "deduplicate (1 / 10)
     \<lparr>boxes = [(- 5, - 5, 3, 3)], scores = [9 / 10],
      masks = [((- 5 :: int, - 5 :: int), Array2 8 (replicate 8 (replicate 8 (1 :: int))))]\<rparr>
   = Inr \<lparr>boxes = [(- 5, - 5, 3, 3)], scores = [9 / 10],
          masks = [((- 5, - 5), Array2 8 (replicate 8 (replicate 8 1)))]\<rparr>"
  by (simp add: deduplicate_def nms_def)

lemma composite_15:
  "composite 15 15
     \<lparr>boxes = [(- 5, - 5, 3, 3)], scores = [9 / 10],
      masks = [((- 5, - 5), Array2 8 (replicate 8 (replicate 8 1)))]\<rparr>
   = Inl ValueError"
  by (simp add: composite_def zeros_def add_into_def times_array_def
      slice_bound_def torch_int_def py_int_def nrows_def Let_def)

text \<open>
  C5, as stated: the compositor always produces the canvas. It does not. For an image
  of 15 by 15 pixels, tiles of side 20 and stride 10, the one tile of the scan is the
  corner tile at \<open>(-5, -5)\<close>. A detection with the box \<open>[0,0,8,8]\<close> in that tile passes the
  filter with the default thresholds and comes to the compositor with the box
  \<open>[-5,-5,3,3]\<close> and a mask of 8 by 8. The slice \<open>final[-5:3, -5:3]\<close> of the canvas is
  empty, numpy cannot add the mask into it, and the run ends in \<open>ValueError\<close>.
\<close>

theorem composite_raises_counterexample:
  "tile_origins 15 15 20 10 = Inr [(- 5, - 5)]
   \<and> composite 15 15
        \<lparr>boxes = [(- 5, - 5, 3, 3)], scores = [9 / 10],
         masks = [((- 5, - 5), Array2 8 (replicate 8 (replicate 8 1)))]\<rparr>
       = Inl ValueError
   \<and> pipeline
        \<lparr>device = ''cpu'', thres_nms = 1 / 10, thres_prediction = 3 / 5, thres_mask = 19 / 20,
         thres_size = 3 / 10, tile_size = 20, rolling_window = 10\<rparr>
        \<lparr>parse_int = (\<lambda>s. None), cuda_device_count = 0,
         imread = Inr (Gray UInt16 (Array2 15 (replicate 15 (replicate 15 0)))),
         true_divide = exact_divide, step1 = Some [],
         torch_load = Inr (\<lambda>img i j.
           [\<lparr>det_score = 9 / 10, det_mask = Array2 20 (replicate 20 (replicate 20 1)),
             det_box = (0, 0, 8, 8)\<rparr>])\<rparr>
       = ([Load_model, Run_model (- 5) (- 5)], Inl ValueError)"
  by (simp add: origins_15_15_20_10 composite_15 pipeline_def select_device_def
      normalize_8_bit_def exact_divide_def nrows_def scan_15 scan_events_def load_15 dedup_15)

text \<open>
  C5, amended (the canvas, for boxes inside it). The canvas starts as \<open>H\<close> rows of \<open>W\<close> zeros, and whenever
  \<open>composite\<close> returns, what it returns has \<open>H\<close> rows and \<open>W\<close> columns. When every
  detection has a mask, every box lies in the canvas and every mask is a well-formed
  binary array, \<open>composite\<close> does return, and each cell holds the sum, over the
  detections \<open>k\<close> in deduplicated order, of \<open>k + 1\<close> times the mask entry under it, the
  mask being cut to the smaller of its own and the box's extent: masks are added, not
  overwritten. So each cell is the sum of the ids \<open>k + 1\<close> of the detections whose mask is
  1 there: 0 where there is none, positive otherwise.
\<close>

theorem composite_canvas:
  "nrows (zeros H W) = H \<and> ncols (zeros H W) = W
   \<and> (\<forall>r < H. \<forall>c < W. cell (zeros H W) r c = 0)
   \<and> (composite H W out = Inr final \<longrightarrow> nrows final = H \<and> ncols final = W)
   \<and> (length (boxes out) \<le> length (masks out)
       \<and> (\<forall>k < length (boxes out).
             box_in_canvas H W (boxes out ! k)
             \<and> wf_array (snd (masks out ! k)) \<and> binary (snd (masks out ! k)))
      \<longrightarrow> (\<exists>canvas. composite H W out = Inr canvas
             \<and> nrows canvas = H \<and> ncols canvas = W \<and> wf_array canvas
             \<and> (\<forall>r < H. \<forall>c < W.
                   cell canvas r c
                     = (\<Sum>k < length (boxes out).
                          (int k + 1) * stamp (boxes out ! k) (snd (masks out ! k)) r c)
                   \<and> cell canvas r c
                     = (\<Sum>k \<in> {k. k < length (boxes out)
                                  \<and> stamp (boxes out ! k) (snd (masks out ! k)) r c = 1}. int k + 1)
                   \<and> ({k. k < length (boxes out)
                          \<and> stamp (boxes out ! k) (snd (masks out ! k)) r c = 1} = {}
                        \<longrightarrow> cell canvas r c = 0)
                   \<and> ({k. k < length (boxes out)
                          \<and> stamp (boxes out ! k) (snd (masks out ! k)) r c = 1} \<noteq> {}
                        \<longrightarrow> 0 < cell canvas r c))))"
proof -
  have shape: "composite H W out = Inr final \<longrightarrow> nrows final = H \<and> ncols final = W"
    using paint_loop_shape [of 0 "boxes out" "masks out" "zeros H W" final]
    by (simp add: composite_def zeros_props)
  have main: "\<exists>canvas. composite H W out = Inr canvas
             \<and> nrows canvas = H \<and> ncols canvas = W \<and> wf_array canvas
             \<and> (\<forall>r < H. \<forall>c < W.
                   cell canvas r c
                     = (\<Sum>k < length (boxes out).
                          (int k + 1) * stamp (boxes out ! k) (snd (masks out ! k)) r c)
                   \<and> cell canvas r c
                     = (\<Sum>k \<in> {k. k < length (boxes out)
                                  \<and> stamp (boxes out ! k) (snd (masks out ! k)) r c = 1}. int k + 1)
                   \<and> ({k. k < length (boxes out)
                          \<and> stamp (boxes out ! k) (snd (masks out ! k)) r c = 1} = {}
                        \<longrightarrow> cell canvas r c = 0)
                   \<and> ({k. k < length (boxes out)
                          \<and> stamp (boxes out ! k) (snd (masks out ! k)) r c = 1} \<noteq> {}
                        \<longrightarrow> 0 < cell canvas r c))"
    if len: "length (boxes out) \<le> length (masks out)"
      and ok: "\<forall>k < length (boxes out).
             box_in_canvas H W (boxes out ! k)
             \<and> wf_array (snd (masks out ! k)) \<and> binary (snd (masks out ! k))"
  proof -
    have ok': "\<forall>k < length (boxes out).
        box_in_canvas (nrows (zeros H W)) (ncols (zeros H W)) (boxes out ! k)
        \<and> wf_array (snd (masks out ! k))"
      using ok by (simp add: zeros_props)
    from paint_loop_cell [OF zeros_props(3) len ok', of 0]
    obtain canvas where run: "composite H W out = Inr canvas"
      and w: "wf_array canvas" and sh: "nrows canvas = H" "ncols canvas = W"
      and cells: "\<forall>r < H. \<forall>c < W. cell canvas r c = cell (zeros H W) r c
            + (\<Sum>k < length (boxes out).
                 (int (0 + k) + 1) * stamp (boxes out ! k) (snd (masks out ! k)) r c)"
      unfolding composite_def zeros_props by blast
    have "cell canvas r c
                     = (\<Sum>k < length (boxes out).
                          (int k + 1) * stamp (boxes out ! k) (snd (masks out ! k)) r c)
                   \<and> cell canvas r c
                     = (\<Sum>k \<in> {k. k < length (boxes out)
                                  \<and> stamp (boxes out ! k) (snd (masks out ! k)) r c = 1}. int k + 1)
                   \<and> ({k. k < length (boxes out)
                          \<and> stamp (boxes out ! k) (snd (masks out ! k)) r c = 1} = {}
                        \<longrightarrow> cell canvas r c = 0)
                   \<and> ({k. k < length (boxes out)
                          \<and> stamp (boxes out ! k) (snd (masks out ! k)) r c = 1} \<noteq> {}
                        \<longrightarrow> 0 < cell canvas r c)"
      if rc: "r < H" "c < W" for r c
    proof -
      let ?s = "\<lambda>k. stamp (boxes out ! k) (snd (masks out ! k)) r c"
      let ?K = "{k. k < length (boxes out) \<and> ?s k = 1}"
      have e1: "cell canvas r c = (\<Sum>k < length (boxes out). (int k + 1) * ?s k)"
        using cells rc by (simp add: zeros_props)
      have "\<forall>k < length (boxes out). ?s k = 0 \<or> ?s k = 1"
        using ok stamp_binary by blast
      then have e2: "(\<Sum>k < length (boxes out). (int k + 1) * ?s k) = (\<Sum>k \<in> ?K. int k + 1)"
        by (rule sum_ids)
      have "finite ?K" by simp
      from ids_positive [OF this] e1 e2 show ?thesis by simp
    qed
    with run w sh show ?thesis by blast
  qed
  show ?thesis
    using shape main by (simp add: zeros_props)
qed


lemma composite_example:
  "composite 3 4
     \<lparr>boxes = [(1, 1, 3, 3), (1 / 2, 0, 27 / 10, 2)], scores = [9 / 10, 8 / 10],
      masks = [((0, 0), Array2 2 [[1, 0], [1, 1]]),
               ((0, 0), Array2 3 [[1, 1, 1], [0, 1, 1], [1, 1, 1]])]\<rparr>
   = Inr (Array2 4 [[2, 2, 0, 0], [0, 3, 0, 0], [0, 1, 1, 0]])"
  by (simp add: composite_def zeros_def add_into_def slice2_def py_slice_def slice_bound_def
      times_array_def nrows_def torch_int_def py_int_def Let_def eval_nat_numeral enumerate_eq_zip upt_conv_Cons)


theorem composite_canvas_witness:
  "length (boxes \<lparr>boxes = [(1, 1, 3, 3), (1 / 2, 0, 27 / 10, 2)], scores = [9 / 10, 8 / 10],
      masks = [((0, 0), Array2 2 [[1, 0], [1, 1]]),
               ((0, 0), Array2 3 [[1, 1, 1], [0, 1, 1], [1, 1, 1]])]\<rparr>) = 2
   \<and> box_in_canvas 3 4 (1, 1, 3, 3) \<and> box_in_canvas 3 4 (1 / 2, 0, 27 / 10, 2)
   \<and> wf_array (Array2 2 [[1, 0], [1, 1 :: int]]) \<and> binary (Array2 2 [[1, 0], [1, 1]])
   \<and> wf_array (Array2 3 [[1, 1, 1], [0, 1, 1], [1, 1, 1 :: int]])
   \<and> binary (Array2 3 [[1, 1, 1], [0, 1, 1], [1, 1, 1]])
   \<and> (\<exists>canvas. composite 3 4
         \<lparr>boxes = [(1, 1, 3, 3), (1 / 2, 0, 27 / 10, 2)], scores = [9 / 10, 8 / 10],
          masks = [((0, 0), Array2 2 [[1, 0], [1, 1]]),
                   ((0, 0), Array2 3 [[1, 1, 1], [0, 1, 1], [1, 1, 1]])]\<rparr> = Inr canvas
        \<and> canvas = Array2 4 [[2, 2, 0, 0], [0, 3, 0, 0], [0, 1, 1, 0]]
        \<and> nrows canvas = 3 \<and> ncols canvas = 4
        \<and> cell canvas 1 1 = 1 + 2)"
proof -
  let ?out = "\<lparr>boxes = [(1, 1, 3, 3), (1 / 2, 0, 27 / 10, 2)], scores = [9 / 10, 8 / 10],
      masks = [((0 :: int, 0 :: int), Array2 2 [[1, 0], [1, 1 :: int]]),
               ((0, 0), Array2 3 [[1, 1, 1], [0, 1, 1], [1, 1, 1]])]\<rparr>"
  have b: "box_in_canvas 3 4 (1, 1, 3, 3)" "box_in_canvas 3 4 (1 / 2, 0, 27 / 10, 2)"
    by (simp_all add: torch_int_def py_int_def)
  have m: "wf_array (Array2 2 [[1, 0], [1, 1 :: int]])" "binary (Array2 2 [[1, 0], [1, 1]])"
    "wf_array (Array2 3 [[1, 1, 1], [0, 1, 1], [1, 1, 1 :: int]])"
    "binary (Array2 3 [[1, 1, 1], [0, 1, 1], [1, 1, 1]])"
    by (simp_all add: wf_array_def binary_def)
  have hyp: "length (boxes ?out) \<le> length (masks ?out)
       \<and> (\<forall>k < length (boxes ?out).
             box_in_canvas 3 4 (boxes ?out ! k)
             \<and> wf_array (snd (masks ?out ! k)) \<and> binary (snd (masks ?out ! k)))"
    using b m by (simp add: less_Suc_eq numeral_2_eq_2)
  from composite_canvas [of 3 4 ?out, THEN conjunct2, THEN conjunct2, THEN conjunct2,
      THEN conjunct2, rule_format, OF hyp]
  obtain canvas where c: "composite 3 4 ?out = Inr canvas" "nrows canvas = 3" "ncols canvas = 4"
    by blast
  have v: "canvas = Array2 4 [[2, 2, 0, 0], [0, 3, 0, 0], [0, 1, 1, 0]]"
    using c(1) unfolding composite_example by simp
  have "cell canvas 1 1 = 1 + 2" by (simp add: v cell_def)
  with b m c v show ?thesis by simp
qed


section \<open>The whole run\<close>

text \<open>
  C10, as stated: every run without \<open><output>/step1\<close> raises a file-not-found error. A
  run with the default device \<open>cuda:0\<close> on a machine without a GPU and without the
  directory ends at line 290 in \<open>sys.exit(1)\<close>, before the listing.
\<close>

theorem pipeline_exits_before_listing_counterexample:
  "step1 \<lparr>parse_int = (\<lambda>s. if s = ''0'' then Some 0 else None), cuda_device_count = 0,
            imread = Inr (Gray UInt16 (Array2 1 [[7]])),
            true_divide = exact_divide, step1 = None,
            torch_load = Inr (\<lambda>img i j. [])\<rparr> = None
   \<and> snd (pipeline
        \<lparr>device = ''cuda:0'', thres_nms = 1 / 10, thres_prediction = 6 / 10,
         thres_mask = 95 / 100, thres_size = 3 / 10, tile_size = 128, rolling_window = 10\<rparr>
        \<lparr>parse_int = (\<lambda>s. if s = ''0'' then Some 0 else None), cuda_device_count = 0,
         imread = Inr (Gray UInt16 (Array2 1 [[7]])),
            true_divide = exact_divide, step1 = None,
         torch_load = Inr (\<lambda>img i j. [])\<rparr>) = Inl (SystemExit 1)
   \<and> snd (pipeline
        \<lparr>device = ''cuda:0'', thres_nms = 1 / 10, thres_prediction = 6 / 10,
         thres_mask = 95 / 100, thres_size = 3 / 10, tile_size = 128, rolling_window = 10\<rparr>
        \<lparr>parse_int = (\<lambda>s. if s = ''0'' then Some 0 else None), cuda_device_count = 0,
         imread = Inr (Gray UInt16 (Array2 1 [[7]])),
            true_divide = exact_divide, step1 = None,
         torch_load = Inr (\<lambda>img i j. [])\<rparr>) \<noteq> Inl FileNotFoundError"
  by (simp add: pipeline_def select_device_def last_field_def)

text \<open>
  C10, amended (the listing comes before the directory). When \<open><output>/step1\<close> does
  not exist, the run ends in an exception and has done nothing: the model is not loaded
  and it is run on no tile. If the device is accepted and the image is read, so that
  line 298 is reached, the exception is \<open>FileNotFoundError\<close>.
\<close>

theorem pipeline_lists_step1_first:
  "step1 w = None \<longrightarrow>
     (\<exists>e. snd (pipeline a w) = Inl e)
     \<and> fst (pipeline a w) = []
     \<and> Load_model \<notin> set (fst (pipeline a w))
     \<and> (\<forall>i j. Run_model i j \<notin> set (fst (pipeline a w)))
     \<and> (select_device a w = Inr dev \<and> imread w = Inr im
          \<longrightarrow> pipeline a w = ([], Inl FileNotFoundError))"
proof
  assume n: "step1 w = None"
  have p: "pipeline a w =
     (case select_device a w of
        Inl e \<Rightarrow> ([], Inl e)
      | Inr dev \<Rightarrow> (case imread w of Inl e \<Rightarrow> ([], Inl e) | Inr im \<Rightarrow> ([], Inl FileNotFoundError)))"
    by (simp add: pipeline_def n split: sum.splits prod.splits)
  show "(\<exists>e. snd (pipeline a w) = Inl e)
     \<and> fst (pipeline a w) = []
     \<and> Load_model \<notin> set (fst (pipeline a w))
     \<and> (\<forall>i j. Run_model i j \<notin> set (fst (pipeline a w)))
     \<and> (select_device a w = Inr dev \<and> imread w = Inr im
          \<longrightarrow> pipeline a w = ([], Inl FileNotFoundError))"
    unfolding p by (auto split: sum.splits)
qed

theorem pipeline_lists_step1_first_witness:
  "step1 \<lparr>parse_int = (\<lambda>s. None), cuda_device_count = 0,
            imread = Inr (Gray UInt16 (Array2 1 [[7]])),
            true_divide = exact_divide, step1 = None,
            torch_load = Inr (\<lambda>img i j. [])\<rparr> = None
   \<and> pipeline
        \<lparr>device = ''cpu'', thres_nms = 1 / 10, thres_prediction = 3 / 5, thres_mask = 19 / 20,
         thres_size = 3 / 10, tile_size = 128, rolling_window = 10\<rparr>
        \<lparr>parse_int = (\<lambda>s. None), cuda_device_count = 0,
         imread = Inr (Gray UInt16 (Array2 1 [[7]])),
            true_divide = exact_divide, step1 = None,
         torch_load = Inr (\<lambda>img i j. [])\<rparr>
       = ([], Inl FileNotFoundError)"
proof -
  let ?a = "\<lparr>device = ''cpu'', thres_nms = 1 / 10, thres_prediction = 3 / 5, thres_mask = 19 / 20,
         thres_size = 3 / 10, tile_size = 128, rolling_window = 10\<rparr>"
  let ?w = "\<lparr>parse_int = (\<lambda>s. None), cuda_device_count = 0,
         imread = Inr (Gray UInt16 (Array2 1 [[7]])),
            true_divide = exact_divide, step1 = None,
         torch_load = Inr (\<lambda>img i j. [])\<rparr>"
  have n: "step1 ?w = None" by simp
  have d: "select_device ?a ?w = Inr ''cpu'' \<and> imread ?w = Inr (Gray UInt16 (Array2 1 [[7]]))"
    by (simp add: select_device_def)
  from pipeline_lists_step1_first [of ?w ?a "''cpu''" "Gray UInt16 (Array2 1 [[7]])", rule_format, OF n]
  have "pipeline ?a ?w = ([], Inl FileNotFoundError)" using d by blast
  with n show ?thesis by simp
qed

text \<open>
  For contrast, a run that finds the directory (empty) loads the model, runs it on the
  one tile of a 6 by 6 image and writes the canvas.
\<close>

lemma py_range_6_6: "py_range 6 6 = Inr [0]"
  by (simp add: py_range_def)

lemma origins_6: "tile_origins 6 6 6 6 = Inr [(0, 0)]"
  by (simp add: tile_origins_def primary_sweep_def sweep_positions_def last_row_def
      last_columns_def bottom_right_def py_range_6_6)

lemma scan_6:
  "tile_extraction_part
     \<lparr>device = ''cpu'', thres_nms = 1 / 10, thres_prediction = 3 / 5, thres_mask = 19 / 20,
      thres_size = 1, tile_size = 6, rolling_window = 6\<rparr>
     (\<lambda>i j. [\<lparr>det_score = 9 / 10, det_mask = Array2 6 (replicate 6 (replicate 6 1)),
                det_box = (0, 0, 6, 6)\<rparr>]) 6 6
   = Inr [(0, \<lparr>c_scores = [Score0 (9 / 10)],
               c_masks = [((0, 0), Array2 6 (replicate 6 (replicate 6 1)))],
               c_boxes = [Box1 (0, 0, 6, 6)]\<rparr>)]"
  by (simp add: tile_extraction_part_def primary_sweep_def sweep_positions_def last_row_def
      last_columns_def bottom_right_def py_range_6_6
      extract_tile_run_model_save_def filter_tile_def keep_scores_def keep_relative_size_def
      keep_absolute_size_def keep_mask_mass_def relative_size_ok_def mask_sum_def
      save_intermediate_step_def binarize_def slice2_def py_slice_def slice_bound_def py_int_def
      sum_list_replicate)


lemma load_6:
  "load_all_steps
     [File \<lparr>c_scores = [Score0 (9 / 10)],
            c_masks = [((0 :: int, 0 :: int), Array2 6 (replicate 6 (replicate 6 (1 :: int))))],
            c_boxes = [Box1 (0, 0, 6, 6)]\<rparr>]
   = Inr \<lparr>boxes = [(0, 0, 6, 6)], scores = [9 / 10],
          masks = [((0, 0), Array2 6 (replicate 6 (replicate 6 1)))]\<rparr>"
  by (simp add: load_all_steps_def)

lemma dedup_6:
  "deduplicate (1 / 10)
     \<lparr>boxes = [(0, 0, 6, 6)], scores = [9 / 10],
      masks = [((0 :: int, 0 :: int), Array2 6 (replicate 6 (replicate 6 (1 :: int))))]\<rparr>
   = Inr \<lparr>boxes = [(0, 0, 6, 6)], scores = [9 / 10],
          masks = [((0, 0), Array2 6 (replicate 6 (replicate 6 1)))]\<rparr>"
  by (simp add: deduplicate_def nms_def)

lemma composite_6:
  "composite 6 6
     \<lparr>boxes = [(0, 0, 6, 6)], scores = [9 / 10],
      masks = [((0, 0), Array2 6 (replicate 6 (replicate 6 1)))]\<rparr>
   = Inr (Array2 6 (replicate 6 (replicate 6 1)))"
  by (simp add: composite_def zeros_def add_into_def times_array_def slice2_def py_slice_def
      slice_bound_def torch_int_def py_int_def nrows_def Let_def enumerate_eq_zip upt_conv_Cons eval_nat_numeral)

lemma pipeline_second_run_example:
  "pipeline
     \<lparr>device = ''cpu'', thres_nms = 1 / 10, thres_prediction = 3 / 5, thres_mask = 19 / 20,
      thres_size = 1, tile_size = 6, rolling_window = 6\<rparr>
     \<lparr>parse_int = (\<lambda>s. None), cuda_device_count = 0,
      imread = Inr (Gray UInt16 (Array2 6 (replicate 6 (replicate 6 0)))),
      true_divide = exact_divide, step1 = Some [],
      torch_load = Inr (\<lambda>img i j.
        [\<lparr>det_score = 9 / 10, det_mask = Array2 6 (replicate 6 (replicate 6 1)),
          det_box = (0, 0, 6, 6)\<rparr>])\<rparr>
   = ([Load_model, Run_model 0 0, Write_output], Inr (Array2 6 (replicate 6 (replicate 6 1))))"
  by (simp add: pipeline_def select_device_def normalize_8_bit_def exact_divide_def nrows_def scan_6
      scan_events_def origins_6 load_6 dedup_6 composite_6)


end
